theory Spec2Isabelle
  imports Main "HOL-Library.Sublist"
begin

section \<open>Strings, bytes and runes\<close>

text \<open>
  A Go \<open>string\<close> is a sequence of bytes: it is modelled by \<open>string\<close>, a list of 8-bit
  characters.  The characters the parser tests for are named once.
\<close>

definition quote :: char where "quote = CHR 0x22"
definition backslash :: char where "backslash = CHR 0x5C"
definition newline :: char where "newline = CHR 0x0A"
definition comma :: char where "comma = CHR 0x2C"

text \<open>\<open>strings.TrimPrefix\<close> and \<open>strings.TrimSuffix\<close>.\<close>

definition TrimPrefix :: "string \<Rightarrow> string \<Rightarrow> string" where
  "TrimPrefix s p = (if prefix p s then drop (length p) s else s)"

definition TrimSuffix :: "string \<Rightarrow> string \<Rightarrow> string" where
  "TrimSuffix s p = (if suffix p s then take (length s - length p) s else s)"

subsection \<open>UTF-8 decoding as done by \<open>range\<close> and \<open>utf8.ValidString\<close>\<close>

definition inRange :: "nat \<Rightarrow> nat \<Rightarrow> char \<Rightarrow> bool" where
  "inRange lo hi c = (lo \<le> of_char c \<and> of_char c \<le> hi)"

definition accept2 :: "string \<Rightarrow> bool" where
  "accept2 s = (case s of b1 # _ \<Rightarrow> inRange 0x80 0xBF b1 | _ \<Rightarrow> False)"

definition accept3 :: "nat \<Rightarrow> nat \<Rightarrow> string \<Rightarrow> bool" where
  "accept3 lo hi s =
     (case s of b1 # b2 # _ \<Rightarrow> inRange lo hi b1 \<and> inRange 0x80 0xBF b2 | _ \<Rightarrow> False)"

definition accept4 :: "nat \<Rightarrow> nat \<Rightarrow> string \<Rightarrow> bool" where
  "accept4 lo hi s =
     (case s of b1 # b2 # b3 # _ \<Rightarrow>
          inRange lo hi b1 \<and> inRange 0x80 0xBF b2 \<and> inRange 0x80 0xBF b3
      | _ \<Rightarrow> False)"

text \<open>
  \<open>runeLen s\<close> is the width of the well-formed UTF-8 encoding that starts \<open>s\<close>, following
  the table of \<open>unicode/utf8\<close> (lead byte, accepted range of the second byte, continuation
  bytes); \<open>None\<close> when \<open>s\<close> is empty or starts with an ill-formed or truncated sequence,
  where the decoder yields \<open>RuneError\<close> with width 1.
\<close>

definition runeLen :: "string \<Rightarrow> nat option" where
  "runeLen s =
     (case s of
        [] \<Rightarrow> None
      | b0 # t \<Rightarrow>
          (let x = (of_char b0 :: nat) in
           if x < 0x80 then Some 1
           else if 0xC2 \<le> x \<and> x \<le> 0xDF then (if accept2 t then Some 2 else None)
           else if x = 0xE0 then (if accept3 0xA0 0xBF t then Some 3 else None)
           else if 0xE1 \<le> x \<and> x \<le> 0xEC then (if accept3 0x80 0xBF t then Some 3 else None)
           else if x = 0xED then (if accept3 0x80 0x9F t then Some 3 else None)
           else if 0xEE \<le> x \<and> x \<le> 0xEF then (if accept3 0x80 0xBF t then Some 3 else None)
           else if x = 0xF0 then (if accept4 0x90 0xBF t then Some 4 else None)
           else if 0xF1 \<le> x \<and> x \<le> 0xF3 then (if accept4 0x80 0xBF t then Some 4 else None)
           else if x = 0xF4 then (if accept4 0x80 0x8F t then Some 4 else None)
           else None))"

text \<open>
  A rune is represented by its UTF-8 encoding, the bytes that \<open>WriteRune\<close> appends for it;
  comparing a rune with an ASCII character is comparing with the one-byte string.
  \<open>RuneError\<close> is U+FFFD.
\<close>

type_synonym rune = string

definition RuneError :: rune where
  "RuneError = [CHR 0xEF, CHR 0xBF, CHR 0xBD]"

text \<open>
  \<open>runes s\<close> is the sequence of runes that \<open>for _, r := range s\<close> visits: a well-formed
  encoding is one rune, any other byte is \<open>RuneError\<close> and the scan moves on by one byte.
\<close>

fun runes :: "string \<Rightarrow> rune list" where
  "runes [] = []"
| "runes (b # t) =
     (case runeLen (b # t) of
        Some w \<Rightarrow> (b # take (w - 1) t) # runes (drop (w - 1) t)
      | None \<Rightarrow> RuneError # runes t)"

text \<open>\<open>utf8.ValidString\<close>: every byte belongs to a well-formed encoding.\<close>

fun ValidString :: "string \<Rightarrow> bool" where
  "ValidString [] = True"
| "ValidString (b # t) =
     (case runeLen (b # t) of
        Some w \<Rightarrow> ValidString (drop (w - 1) t)
      | None \<Rightarrow> False)"

subsection \<open>\<open>strings.TrimSpace\<close>\<close>

text \<open>
  The encodings of the code points with the Unicode White_Space property, which
  \<open>unicode.IsSpace\<close> accepts: tab, line feed, vertical tab, form feed, carriage return,
  space, U+0085, U+00A0, U+1680, U+2000 to U+200A, U+2028, U+2029, U+202F, U+205F, U+3000.
\<close>

definition spaceRunes :: "rune list" where
  "spaceRunes =
     [ [CHR 0x09], [CHR 0x0A], [CHR 0x0B], [CHR 0x0C], [CHR 0x0D], [CHR 0x20],
      [CHR 0xC2, CHR 0x85], [CHR 0xC2, CHR 0xA0], [CHR 0xE1, CHR 0x9A, CHR 0x80],
      [CHR 0xE2, CHR 0x80, CHR 0x80], [CHR 0xE2, CHR 0x80, CHR 0x81],
      [CHR 0xE2, CHR 0x80, CHR 0x82], [CHR 0xE2, CHR 0x80, CHR 0x83],
      [CHR 0xE2, CHR 0x80, CHR 0x84], [CHR 0xE2, CHR 0x80, CHR 0x85],
      [CHR 0xE2, CHR 0x80, CHR 0x86], [CHR 0xE2, CHR 0x80, CHR 0x87],
      [CHR 0xE2, CHR 0x80, CHR 0x88], [CHR 0xE2, CHR 0x80, CHR 0x89],
      [CHR 0xE2, CHR 0x80, CHR 0x8A], [CHR 0xE2, CHR 0x80, CHR 0xA8],
      [CHR 0xE2, CHR 0x80, CHR 0xA9], [CHR 0xE2, CHR 0x80, CHR 0xAF],
      [CHR 0xE2, CHR 0x81, CHR 0x9F], [CHR 0xE3, CHR 0x80, CHR 0x80]]"

text \<open>The width of the white-space rune that starts \<open>s\<close>, if one does.\<close>

definition leadingSpace :: "rune list \<Rightarrow> string \<Rightarrow> nat option" where
  "leadingSpace sp s = map_option length (find (\<lambda>r. prefix r s) sp)"

fun trimLeft :: "rune list \<Rightarrow> string \<Rightarrow> string" where
  "trimLeft sp [] = []"
| "trimLeft sp (b # t) =
     (case leadingSpace sp (b # t) of
        Some w \<Rightarrow> trimLeft sp (drop (w - 1) t)
      | None \<Rightarrow> b # t)"

text \<open>
  \<open>TrimSpace\<close> removes white-space runes from the left and then from the right; the
  right-hand scan reads the last rune, which is the suffix test on the reversed string.
\<close>

definition TrimSpace :: "string \<Rightarrow> string" where
  "TrimSpace s = rev (trimLeft (map rev spaceRunes) (rev (trimLeft spaceRunes s)))"

section \<open>Matchers\<close>

datatype MatchType = MatchEqual | MatchNotEqual | MatchRegexp | MatchNotRegexp

text \<open>
  The errors the functions return.  Go tells them apart by their message; the string an
  error carries is the text formatted into the message.
\<close>

datatype error =
    BadMatcherFormat string
  | NotValidUTF8 string
  | UnescapedQuote string
  | RegexpError string
  | NoAlertsFound
  | NoMatchesFound
  | UpstreamError string

text \<open>A panic of the Go runtime or of the code.\<close>

datatype panic = NilPointerDereference

text \<open>
  Package \<open>regexp\<close> is a parameter of the model: \<open>Compile\<close> takes a pattern to a
  compiled expression or to the message of its syntax error, and \<open>MatchString\<close> runs a
  compiled expression on a string.
\<close>

record 're regexp =
  Compile :: "string \<Rightarrow> string + 're"
  MatchString :: "'re \<Rightarrow> string \<Rightarrow> bool"

record 're Matcher =
  Type :: MatchType
  Name :: string
  Value :: string
  re :: "'re option"

text \<open>\<open>NewMatcher\<close>: the expression is compiled for the two regular-expression types only.\<close>

definition NewMatcher ::
  "'re regexp \<Rightarrow> MatchType \<Rightarrow> string \<Rightarrow> string \<Rightarrow> error + 're Matcher" where
  "NewMatcher L t n v =
     (let m = \<lparr>Type = t, Name = n, Value = v, re = None\<rparr> in
      if t = MatchRegexp \<or> t = MatchNotRegexp then
        (case Compile L (''^(?:'' @ v @ '')$'') of
           Inl err \<Rightarrow> Inl (RegexpError err)
         | Inr r \<Rightarrow> Inr (m\<lparr>re := Some r\<rparr>))
      else Inr m)"

text \<open>
  \<open>(*Matcher).Matches\<close>.  Calling \<open>MatchString\<close> through a nil \<open>re\<close> panics; the final
  panic of the source is out of reach of the four declared match types.
\<close>

definition Matches :: "'re regexp \<Rightarrow> 're Matcher \<Rightarrow> string \<Rightarrow> panic + bool" where
  "Matches L m s =
     (case Type m of
        MatchEqual \<Rightarrow> Inr (s = Value m)
      | MatchNotEqual \<Rightarrow> Inr (s \<noteq> Value m)
      | MatchRegexp \<Rightarrow>
          (case re m of None \<Rightarrow> Inl NilPointerDereference
           | Some r \<Rightarrow> Inr (MatchString L r s))
      | MatchNotRegexp \<Rightarrow>
          (case re m of None \<Rightarrow> Inl NilPointerDereference
           | Some r \<Rightarrow> Inr (\<not> MatchString L r s)))"

text \<open>
  A \<open>model.LabelSet\<close> is a map from label names to label values; indexing it with an
  absent name yields the empty string.
\<close>

type_synonym LabelSet = "string \<rightharpoonup> string"

definition lookupLabel :: "LabelSet \<Rightarrow> string \<Rightarrow> string" where
  "lookupLabel lset n = (case lset n of None \<Rightarrow> [] | Some v \<Rightarrow> v)"

text \<open>\<open>Matchers.Matches\<close>: the loop returns false at the first matcher that does not match.\<close>

fun Matchers_Matches :: "'re regexp \<Rightarrow> 're Matcher list \<Rightarrow> LabelSet \<Rightarrow> panic + bool" where
  "Matchers_Matches L [] lset = Inr True"
| "Matchers_Matches L (m # ms) lset =
     (case Matches L m (lookupLabel lset (Name m)) of
        Inl p \<Rightarrow> Inl p
      | Inr b \<Rightarrow> if \<not> b then Inr False else Matchers_Matches L ms lset)"

subsection \<open>Rendering\<close>

definition MatchType_String :: "MatchType \<Rightarrow> string" where
  "MatchType_String t =
     (case t of MatchEqual \<Rightarrow> ''=''
      | MatchNotEqual \<Rightarrow> ''!=''
      | MatchRegexp \<Rightarrow> ''=~''
      | MatchNotRegexp \<Rightarrow> ''!~'')"

text \<open>
  \<open>openMetricsEscape\<close>: a \<open>strings.Replacer\<close> whose old strings are all single bytes
  replaces every byte on its own.
\<close>

definition escapeByte :: "char \<Rightarrow> string" where
  "escapeByte c =
     (if c = backslash then [backslash, backslash]
      else if c = newline then [backslash, CHR ''n'']
      else if c = quote then [backslash, quote]
      else [c])"

definition openMetricsEscape :: "string \<Rightarrow> string" where
  "openMetricsEscape s = concat (map escapeByte s)"

definition Matcher_String :: "'re Matcher \<Rightarrow> string" where
  "Matcher_String m =
     Name m @ MatchType_String (Type m) @ [quote] @ openMetricsEscape (Value m) @ [quote]"

subsection \<open>Parsing one matcher\<close>

text \<open>
  The expression \<open>re\<close> of matcher.go,
  \<^verbatim>\<open>^\s*([a-zA-Z_:][a-zA-Z0-9_:]*)\s*(=~|=|!=|!~)\s*((?s).*?)\s*$\<close>,
  under the leftmost-first rule of package \<open>regexp\<close>.  \<open>\s\<close> is the ASCII class
  tab, line feed, form feed, carriage return, space.  The greedy \<open>\s*\<close> and name take
  the longest run (a shorter one leaves a character the next item rejects), the
  alternatives of the operator are tried in the order written, and the lazy \<open>.*?\<close>
  stops at the first position from which only white space follows.
\<close>

definition isSpace :: "char \<Rightarrow> bool" where
  "isSpace c = ((of_char c :: nat) \<in> {0x09, 0x0A, 0x0C, 0x0D, 0x20})"

definition isAlpha :: "char \<Rightarrow> bool" where
  "isAlpha c = (inRange 0x61 0x7A c \<or> inRange 0x41 0x5A c)"

definition isNameStart :: "char \<Rightarrow> bool" where
  "isNameStart c = (isAlpha c \<or> c = CHR ''_'' \<or> c = CHR '':'')"

definition isNameChar :: "char \<Rightarrow> bool" where
  "isNameChar c = (isNameStart c \<or> inRange 0x30 0x39 c)"

definition matchOp :: "string \<Rightarrow> (string \<times> string) option" where
  "matchOp s =
     (if prefix ''=~'' s then Some (''=~'', drop 2 s)
      else if prefix ''='' s then Some (''='', drop 1 s)
      else if prefix ''!='' s then Some (''!='', drop 2 s)
      else if prefix ''!~'' s then Some (''!~'', drop 2 s)
      else None)"

definition trimRight :: "string \<Rightarrow> string" where
  "trimRight s = rev (dropWhile isSpace (rev s))"

text \<open>\<open>re.FindStringSubmatch\<close>: the three groups, or \<open>None\<close> for no match.\<close>

definition FindStringSubmatch :: "string \<Rightarrow> (string \<times> string \<times> string) option" where
  "FindStringSubmatch s =
     (let s1 = dropWhile isSpace s in
      case s1 of
        [] \<Rightarrow> None
      | c # _ \<Rightarrow>
          if \<not> isNameStart c then None
          else
            (case matchOp (dropWhile isSpace (dropWhile isNameChar s1)) of
               None \<Rightarrow> None
             | Some (op, s3) \<Rightarrow>
                 Some (takeWhile isNameChar s1, op, trimRight (dropWhile isSpace s3))))"

text \<open>\<open>typeMap\<close>; indexing a Go map with an absent key gives the zero value, \<open>MatchEqual\<close>.\<close>

definition typeMap :: "string \<Rightarrow> MatchType" where
  "typeMap op =
     (if op = ''='' then MatchEqual
      else if op = ''!='' then MatchNotEqual
      else if op = ''=~'' then MatchRegexp
      else if op = ''!~'' then MatchNotRegexp
      else MatchEqual)"

text \<open>
  The unescaping loop of \<open>ParseMatcher\<close> over the runes of \<open>rawValue\<close>.  \<open>n\<close> is
  \<open>len(rawValue)\<close>, \<open>i\<close> the byte index of the rune being read, \<open>s\<close> the bytes from \<open>i\<close>
  on and \<open>val\<close> the contents of the builder.  The result is the error of the early return
  or the final contents.
\<close>

fun unescapeLoop :: "int \<Rightarrow> int \<Rightarrow> bool \<Rightarrow> string \<Rightarrow> string \<Rightarrow> string \<Rightarrow> error + string" where
  "unescapeLoop n i escaped raw val [] = Inr val"
| "unescapeLoop n i escaped raw val (b # t) =
     (let w = (case runeLen (b # t) of Some w \<Rightarrow> w | None \<Rightarrow> 1);
          r = (case runeLen (b # t) of Some w \<Rightarrow> b # take (w - 1) t | None \<Rightarrow> RuneError);
          rest = drop (w - 1) t;
          j = i + int w
      in
      if escaped then
        (if r = ''n'' then unescapeLoop n j False raw (val @ [newline]) rest
         else if r = [quote] \<or> r = [backslash] then unescapeLoop n j False raw (val @ r) rest
         else unescapeLoop n j False raw (val @ [backslash] @ r) rest)
      else if r = [backslash] then
        (if i < n - 1 then unescapeLoop n j True raw val rest
         else unescapeLoop n j False raw (val @ [backslash]) rest)
      else if r = [quote] then
        (if i < n - 1 then Inl (UnescapedQuote raw)
         else unescapeLoop n j False raw val rest)
      else unescapeLoop n j False raw (val @ r) rest)"

definition ParseMatcher :: "'re regexp \<Rightarrow> string \<Rightarrow> error + 're Matcher" where
  "ParseMatcher L s =
     (case FindStringSubmatch s of
        None \<Rightarrow> Inl (BadMatcherFormat s)
      | Some (name, op, v) \<Rightarrow>
          (let rawValue = TrimPrefix v [quote] in
           if \<not> ValidString rawValue then Inl (NotValidUTF8 rawValue)
           else
             (case unescapeLoop (int (length rawValue)) 0 False rawValue [] rawValue of
                Inl err \<Rightarrow> Inl err
              | Inr val \<Rightarrow> NewMatcher L (typeMap op) name val)))"

subsection \<open>Parsing a list of matchers\<close>

text \<open>
  The tokenising loop of \<open>ParseMatchers\<close>: \<open>insideQuotes\<close>, \<open>escaped\<close>, the builder
  \<open>token\<close> and the slice \<open>tokens\<close>, over the runes of the input.  The comma case leaves
  \<open>escaped\<close> as it is.
\<close>

fun scanTokens ::
  "bool \<Rightarrow> bool \<Rightarrow> string \<Rightarrow> string list \<Rightarrow> rune list \<Rightarrow> bool \<times> bool \<times> string \<times> string list" where
  "scanTokens insideQuotes escaped token tokens [] = (insideQuotes, escaped, token, tokens)"
| "scanTokens insideQuotes escaped token tokens (r # rs) =
     (if r = [comma] then
        (if \<not> insideQuotes then scanTokens insideQuotes escaped [] (tokens @ [token]) rs
         else scanTokens insideQuotes escaped (token @ r) tokens rs)
      else if r = [quote] then
        (if \<not> escaped then scanTokens (\<not> insideQuotes) escaped (token @ r) tokens rs
         else scanTokens insideQuotes False (token @ r) tokens rs)
      else if r = [backslash] then scanTokens insideQuotes (\<not> escaped) (token @ r) tokens rs
      else scanTokens insideQuotes False (token @ r) tokens rs)"

text \<open>The final loop: parse every token, return at the first error.\<close>

fun parseTokens :: "'re regexp \<Rightarrow> 're Matcher list \<Rightarrow> string list \<Rightarrow> error + 're Matcher list" where
  "parseTokens L matchers [] = Inr matchers"
| "parseTokens L matchers (token # tokens) =
     (case ParseMatcher L token of
        Inl err \<Rightarrow> Inl err
      | Inr m \<Rightarrow> parseTokens L (matchers @ [m]) tokens)"

definition tokenize :: "string \<Rightarrow> string list" where
  "tokenize s =
     (case scanTokens False False [] [] (runes s) of
        (_, _, token, tokens) \<Rightarrow>
          (let t = TrimSpace token in if t \<noteq> [] then tokens @ [t] else tokens))"

definition ParseMatchers :: "'re regexp \<Rightarrow> string \<Rightarrow> error + 're Matcher list" where
  "ParseMatchers L s =
     parseTokens L [] (tokenize (TrimSuffix (TrimPrefix s ''{'') ''}''))"

section \<open>Time and the silence lifecycle\<close>

text \<open>
  A \<open>time.Time\<close> is modelled by its instant, an integer count of nanoseconds since the
  zero time (January 1, year 1, 00:00:00 UTC), so that \<open>IsZero\<close> is equality with 0 and
  \<open>Before\<close> and \<open>After\<close> are the strict order.  A \<open>time.Duration\<close> is an integer number
  of nanoseconds.  Every call of \<open>time.Now()\<close> is an explicit argument.
\<close>

type_synonym Time = int
type_synonym Duration = int

definition IsZero :: "Time \<Rightarrow> bool" where
  "IsZero t = (t = 0)"

definition Before :: "Time \<Rightarrow> Time \<Rightarrow> bool" where
  "Before t u = (t < u)"

definition After :: "Time \<Rightarrow> Time \<Rightarrow> bool" where
  "After t u = (t > u)"

definition Add :: "Time \<Rightarrow> Duration \<Rightarrow> Time" where
  "Add t d = t + d"

datatype SilenceState = SilenceStateExpired | SilenceStateActive | SilenceStatePending

text \<open>\<open>CalcSilenceState(start, end)\<close> of translation.go; \<open>current\<close> is the value of \<open>time.Now()\<close>.\<close>

definition CalcSilenceState :: "Time \<Rightarrow> Time \<Rightarrow> Time \<Rightarrow> SilenceState" where
  "CalcSilenceState current start end' =
     (if Before current start then SilenceStatePending
      else if Before current end' then SilenceStateActive
      else SilenceStateExpired)"

section \<open>Silences\<close>

text \<open>\<open>Silence\<close> of package vendor; \<open>Status\<close> is the \<open>State\<close> of its \<open>SilenceStatus\<close>.\<close>

record 're Silence =
  ID :: string
  Matchers :: "'re Matcher list"
  StartsAt :: Time
  EndsAt :: Time
  UpdatedAt :: Time
  CreatedBy :: string
  Comment :: string
  Status :: SilenceState

text \<open>\<open>Resolved\<close> of alerts.go; \<open>now\<close> is the value of \<open>time.Now()\<close>.\<close>

definition Resolved :: "Time \<Rightarrow> 're Silence \<Rightarrow> bool" where
  "Resolved now s = (if IsZero (EndsAt s) then False else \<not> After (EndsAt s) now)"

text \<open>
  What \<open>(*Bot).silence\<close> reads of an alert: the strings \<open>alert.Fingerprint().String()\<close>
  and \<open>alert.Labels.String()\<close>.
\<close>

record Alert =
  Fingerprint :: string
  Labels :: string

text \<open>
  The collaborators of the bot: the result of \<open>alertmanager.ListAlerts\<close>, the error (or
  nil) that \<open>alertmanager.PostSilence\<close> returns for a silence, and the clock, \<open>Now k\<close>
  being the value of the \<open>k\<close>-th call of \<open>time.Now()\<close>, counted from 0.
\<close>

record 're Env =
  ListAlerts :: "error + Alert list"
  PostSilence :: "'re Silence \<Rightarrow> error option"
  Now :: "nat \<Rightarrow> Time"

text \<open>
  The silence assembled for the matching alert.  Go evaluates the calls of a composite
  literal in the order written: \<open>StartsAt\<close>, \<open>EndsAt\<close>, \<open>UpdatedAt\<close>, the two arguments of
  \<open>CalcSilenceState\<close> and then the call of \<open>time.Now()\<close> inside it.
\<close>

definition newSilence :: "'re Env \<Rightarrow> 're Matcher list \<Rightarrow> Duration \<Rightarrow> 're Silence" where
  "newSilence env matchers duration =
     \<lparr>ID = [],
      Matchers = matchers,
      StartsAt = Now env 0,
      EndsAt = Add (Now env 1) duration,
      UpdatedAt = Now env 2,
      CreatedBy = ''alertmanager-bot'',
      Comment = ''Enacted by administrator command'',
      Status = CalcSilenceState (Now env 5) (Now env 3) (Add (Now env 4) duration)\<rparr>"

text \<open>
  The loop of \<open>(*Bot).silence\<close> over the alerts.  \<open>Inl\<close> is a return from inside the loop:
  the error returned (or nil) and the silences posted; \<open>Inr\<close> is the value of \<open>count\<close>
  when the loop ends.
\<close>

fun silenceLoop ::
  "'re regexp \<Rightarrow> 're Env \<Rightarrow> string \<Rightarrow> Duration \<Rightarrow> nat \<Rightarrow> Alert list \<Rightarrow>
     (error option \<times> 're Silence list) + nat" where
  "silenceLoop L env fingerPrint duration count [] = Inr count"
| "silenceLoop L env fingerPrint duration count (alert # alerts) =
     (if Fingerprint alert = fingerPrint then
        (case ParseMatchers L (Labels alert) of
           Inl err \<Rightarrow> Inl (Some err, [])
         | Inr matchers \<Rightarrow>
             (let silence = newSilence env matchers duration
              in Inl (PostSilence env silence, [silence])))
      else silenceLoop L env fingerPrint duration (count + 1) alerts)"

definition silence ::
  "'re regexp \<Rightarrow> 're Env \<Rightarrow> string \<Rightarrow> Duration \<Rightarrow> error option \<times> 're Silence list" where
  "silence L env fingerPrint duration =
     (case ListAlerts env of
        Inl err \<Rightarrow> (Some err, [])
      | Inr alerts \<Rightarrow>
          if length alerts = 0 then (Some NoAlertsFound, [])
          else
            (case silenceLoop L env fingerPrint duration 0 alerts of
               Inl res \<Rightarrow> res
             | Inr count \<Rightarrow>
                 if count = length alerts then (Some NoMatchesFound, []) else (None, [])))"

section \<open>A small regular-expression library\<close>

text \<open>
  An instance of the library parameter for evaluating the model at concrete inputs.  It
  compiles the patterns \<^verbatim>\<open>^(?:body)$\<close> whose body is made of ASCII letters, digits and
  \<^verbatim>\<open>.\<close>, and rejects every other pattern; a letter or digit matches itself, \<^verbatim>\<open>.\<close>
  matches any rune but the line feed, and the anchors make the match cover the whole
  string.
\<close>

datatype atom = Lit char | AnyChar

fun compileBody :: "string \<Rightarrow> atom list option" where
  "compileBody [] = Some []"
| "compileBody (c # cs) =
     (if c = CHR ''.'' then map_option ((#) AnyChar) (compileBody cs)
      else if isAlpha c \<or> inRange 0x30 0x39 c then map_option ((#) (Lit c)) (compileBody cs)
      else None)"

definition sampleCompile :: "string \<Rightarrow> string + atom list" where
  "sampleCompile p =
     (if prefix ''^(?:'' p \<and> suffix '')$'' p \<and> 6 \<le> length p then
        (case compileBody (take (length p - 6) (drop 4 p)) of
           Some atoms \<Rightarrow> Inr atoms
         | None \<Rightarrow> Inl p)
      else Inl p)"

fun matchAtom :: "atom \<Rightarrow> rune \<Rightarrow> bool" where
  "matchAtom (Lit c) r = (r = [c])"
| "matchAtom AnyChar r = (r \<noteq> [newline])"

definition sampleRegexp :: "atom list regexp" where
  "sampleRegexp =
     \<lparr>Compile = sampleCompile,
      MatchString = (\<lambda>atoms s. list_all2 matchAtom atoms (runes s))\<rparr>"

section \<open>Auxiliary notions for the statements\<close>

text \<open>A matcher on which \<open>Matches\<close> cannot panic: the regular-expression types carry an expression.\<close>

definition wellFormed :: "'re Matcher \<Rightarrow> bool" where
  "wellFormed m = (Type m = MatchRegexp \<or> Type m = MatchNotRegexp \<longrightarrow> re m \<noteq> None)"

text \<open>\<open>k\<close> bytes are there and none of them is ASCII.\<close>

definition highBytes :: "nat \<Rightarrow> string \<Rightarrow> bool" where
  "highBytes k t = (k \<le> length t \<and> (\<forall>c \<in> set (take k t). 0x80 \<le> (of_char c :: nat)))"

text \<open>
  The unescaping loop read byte by byte, with the same flag and builder.  On valid UTF-8
  it computes what \<open>unescapeLoop\<close> computes (lemma \<open>unescapeLoop_bytes\<close>).
\<close>

fun unescBytes :: "bool \<Rightarrow> string \<Rightarrow> string \<Rightarrow> string \<Rightarrow> error + string" where
  "unescBytes escaped raw val [] = Inr val"
| "unescBytes escaped raw val (c # t) =
     (if escaped then
        (if c = CHR ''n'' then unescBytes False raw (val @ [newline]) t
         else if c = quote \<or> c = backslash then unescBytes False raw (val @ [c]) t
         else unescBytes False raw (val @ [backslash, c]) t)
      else if c = backslash then
        (if t \<noteq> [] then unescBytes True raw val t
         else unescBytes False raw (val @ [backslash]) t)
      else if c = quote then
        (if t \<noteq> [] then Inl (UnescapedQuote raw)
         else unescBytes False raw val t)
      else unescBytes False raw (val @ [c]) t)"

text \<open>
  Unescaping as the specification words it, on the value after the leading quote is
  stripped: \<open>\n\<close>, \<open>\"\<close> and \<open>\\\<close> stand for line feed, quote and backslash; a backslash
  before any other character is kept with that character; a backslash that ends the value
  is kept; a quote that ends the value is dropped; any other unescaped quote is an error
  (\<open>None\<close>).
\<close>

fun specUnescape :: "string \<Rightarrow> string option" where
  "specUnescape [] = Some []"
| "specUnescape [c] = (if c = quote then Some [] else Some [c])"
| "specUnescape (c # d # s) =
     (if c = backslash then
        (if d = CHR ''n'' then map_option ((#) newline) (specUnescape s)
         else if d = quote then map_option ((#) quote) (specUnescape s)
         else if d = backslash then map_option ((#) backslash) (specUnescape s)
         else map_option (\<lambda>v. backslash # d # v) (specUnescape s))
      else if c = quote then None
      else map_option ((#) c) (specUnescape (d # s)))"

text \<open>
  The error kinds of the specification: every failure of parsing is a \<open>SyntaxError\<close>, a
  failure of compiling the regular expression is a \<open>PatternError\<close>.
\<close>

fun isSyntaxError :: "error \<Rightarrow> bool" where
  "isSyntaxError (BadMatcherFormat _) = True"
| "isSyntaxError (NotValidUTF8 _) = True"
| "isSyntaxError (UnescapedQuote _) = True"
| "isSyntaxError _ = False"

fun isPatternError :: "error \<Rightarrow> bool" where
  "isPatternError (RegexpError _) = True"
| "isPatternError _ = False"

text \<open>
  Parsing a list as the specification words it, with what the code adds by design.  One
  leading \<^verbatim>\<open>{\<close> and one trailing \<^verbatim>\<open>}\<close> are removed, each if present.
\<close>

definition specStrip :: "string \<Rightarrow> string" where
  "specStrip s =
     (let s1 = (if s \<noteq> [] \<and> hd s = CHR ''{'' then tl s else s)
      in if s1 \<noteq> [] \<and> last s1 = CHR ''}'' then butlast s1 else s1)"

text \<open>Every byte that is not part of a well-formed UTF-8 encoding is replaced by U+FFFD.\<close>

fun replaceInvalid :: "string \<Rightarrow> string" where
  "replaceInvalid [] = []"
| "replaceInvalid (b # t) =
     (case runeLen (b # t) of
        Some w \<Rightarrow> b # take (w - 1) t @ replaceInvalid (drop (w - 1) t)
      | None \<Rightarrow> RuneError @ replaceInvalid t)"

text \<open>
  The split of a text, character by character, at the commas outside quoted spans: a quote
  toggles the quoted-region flag unless the escape flag is set; a backslash toggles the
  escape flag and every other character resets it; a comma outside a quoted region ends
  the current token.  The result lists all tokens, the one after the last comma included.
\<close>

fun specSplit :: "bool \<Rightarrow> bool \<Rightarrow> string \<Rightarrow> string list" where
  "specSplit quoted esc [] = [ []]"
| "specSplit quoted esc (c # cs) =
     (let quoted' = (if c = quote \<and> \<not> esc then \<not> quoted else quoted);
          esc' = (if c = backslash then \<not> esc else False);
          rest = specSplit quoted' esc' cs
      in if c = comma \<and> \<not> quoted then [] # rest
         else (c # hd rest) # tl rest)"

text \<open>
  The last token is trimmed of white space and discarded when nothing is left; the
  tokens are parsed in order and the first failure is the result.
\<close>

definition specTokens :: "string \<Rightarrow> string list" where
  "specTokens s =
     (let ts = specSplit False False s; t = TrimSpace (last ts)
      in if t = [] then butlast ts else butlast ts @ [t])"

fun specParseList :: "'re regexp \<Rightarrow> string list \<Rightarrow> error + 're Matcher list" where
  "specParseList L [] = Inr []"
| "specParseList L (t # ts) =
     (case ParseMatcher L t of
        Inl e \<Rightarrow> Inl e
      | Inr m \<Rightarrow> (case specParseList L ts of Inl e \<Rightarrow> Inl e | Inr ms \<Rightarrow> Inr (m # ms)))"

definition specParseAll :: "'re regexp \<Rightarrow> string \<Rightarrow> error + 're Matcher list" where
  "specParseAll L s = specParseList L (specTokens (replaceInvalid (specStrip s)))"

text \<open>
  The comma case of the tokenising loop leaves the escape flag as it is, where the
  specification resets it.  \<open>staleQuote c e s\<close> follows both flags over \<open>s\<close>, \<open>c\<close> the
  flag of the loop and \<open>e\<close> the flag of the specification, and tells whether a quote is
  read while they differ: the flags part at a comma read with the flag set, and only
  a quote read before they meet again is treated differently.
\<close>

fun staleQuote :: "bool \<Rightarrow> bool \<Rightarrow> string \<Rightarrow> bool" where
  "staleQuote c e [] = False"
| "staleQuote c e (x # xs) =
     (if x = comma then staleQuote c False xs
      else if x = quote then c \<noteq> e \<or> staleQuote False False xs
      else if x = backslash then staleQuote (\<not> c) (\<not> e) xs
      else staleQuote False False xs)"





text \<open>
  Two notions for the last character of a value.  \<open>openEscape s\<close>: read in the same
  pairs as \<open>specUnescape\<close>, \<open>s\<close> ends in a backslash that escapes what comes next.
  \<open>specBody\<close> is \<open>specUnescape\<close> without the allowance for a final quote: every
  unescaped quote is an error.
\<close>

fun openEscape :: "string \<Rightarrow> bool" where
  "openEscape [] = False"
| "openEscape [c] = (c = backslash)"
| "openEscape (c # d # s) = (if c = backslash then openEscape s else openEscape (d # s))"

fun specBody :: "string \<Rightarrow> string option" where
  "specBody [] = Some []"
| "specBody [c] = (if c = quote then None else Some [c])"
| "specBody (c # d # s) =
     (if c = backslash then
        (if d = CHR ''n'' then map_option ((#) newline) (specBody s)
         else if d = quote then map_option ((#) quote) (specBody s)
         else if d = backslash then map_option ((#) backslash) (specBody s)
         else map_option (\<lambda>v. backslash # d # v) (specBody s))
      else if c = quote then None
      else map_option ((#) c) (specBody (d # s)))"

section \<open>The silence lifecycle\<close>

lemma CalcSilenceState_cases:
  "CalcSilenceState now s e =
     (if now < s then SilenceStatePending
      else if now < e then SilenceStateActive
      else SilenceStateExpired)"
  by (simp add: CalcSilenceState_def Before_def)

text \<open>
  C4, as stated, fails on an inverted interval: with \<open>startsAt = 10\<close>, \<open>endsAt = 5\<close> and
  \<open>now = 7\<close> the current time is not before the end, yet the state is pending and not
  expired, because the test against the start comes first.
\<close>

theorem CalcSilenceState_inverted_counterexample:
  "(5::int) \<le> 7 \<and> CalcSilenceState 7 10 5 = SilenceStatePending
     \<and> CalcSilenceState 7 10 5 \<noteq> SilenceStateExpired"
  by (simp add: CalcSilenceState_cases)

text \<open>
  C4 (amended): for every triple of times, in any order, \<open>CalcSilenceState\<close> returns a
  state: pending exactly when \<open>now < startsAt\<close>, active exactly when
  \<open>startsAt \<le> now < endsAt\<close>, and expired exactly when \<open>now \<ge> startsAt\<close> and
  \<open>now \<ge> endsAt\<close>.  When \<open>startsAt \<le> endsAt\<close> the last condition is \<open>now \<ge> endsAt\<close>.
\<close>

theorem CalcSilenceState_characterisation:
  "(CalcSilenceState now startsAt endsAt = SilenceStatePending) = (now < startsAt)
   \<and> (CalcSilenceState now startsAt endsAt = SilenceStateActive)
        = (startsAt \<le> now \<and> now < endsAt)
   \<and> (CalcSilenceState now startsAt endsAt = SilenceStateExpired)
        = (startsAt \<le> now \<and> endsAt \<le> now)
   \<and> (startsAt \<le> endsAt \<longrightarrow>
        (CalcSilenceState now startsAt endsAt = SilenceStateExpired) = (endsAt \<le> now))"
  by (auto simp add: CalcSilenceState_cases)

theorem CalcSilenceState_characterisation_witness:
  "CalcSilenceState 1 2 3 = SilenceStatePending
   \<and> CalcSilenceState 2 2 3 = SilenceStateActive
   \<and> CalcSilenceState 3 2 3 = SilenceStateExpired
   \<and> CalcSilenceState 2 2 2 = SilenceStateExpired
   \<and> (2::int) \<le> 3"
  using CalcSilenceState_characterisation [of 1 2 3]
    CalcSilenceState_characterisation [of 2 2 3]
    CalcSilenceState_characterisation [of 3 2 3]
    CalcSilenceState_characterisation [of 2 2 2]
  by simp

text \<open>
  C7: \<open>Resolved\<close> is true exactly when \<open>EndsAt\<close> is not the zero time and \<open>now\<close> is not
  before it; a silence whose \<open>EndsAt\<close> is the zero time is not resolved at any \<open>now\<close>.
\<close>

theorem Resolved_iff:
  "Resolved now s = (\<not> IsZero (EndsAt s) \<and> EndsAt s \<le> now)
   \<and> (IsZero (EndsAt s) \<longrightarrow> \<not> Resolved now s)"
  by (auto simp add: Resolved_def After_def)

theorem Resolved_iff_witness:
  "IsZero (EndsAt \<lparr>ID = [], Matchers = ([] :: unit Matcher list), StartsAt = 0, EndsAt = 0,
      UpdatedAt = 0, CreatedBy = [], Comment = [], Status = SilenceStateActive\<rparr>)
   \<and> \<not> Resolved 5 \<lparr>ID = [], Matchers = ([] :: unit Matcher list), StartsAt = 0, EndsAt = 0,
      UpdatedAt = 0, CreatedBy = [], Comment = [], Status = SilenceStateActive\<rparr>
   \<and> Resolved 5 \<lparr>ID = [], Matchers = ([] :: unit Matcher list), StartsAt = 1, EndsAt = 5,
      UpdatedAt = 0, CreatedBy = [], Comment = [], Status = SilenceStateActive\<rparr>"
  using Resolved_iff [of 5 "\<lparr>ID = [], Matchers = ([] :: unit Matcher list), StartsAt = 0,
      EndsAt = 0, UpdatedAt = 0, CreatedBy = [], Comment = [], Status = SilenceStateActive\<rparr>"]
    Resolved_iff [of 5 "\<lparr>ID = [], Matchers = ([] :: unit Matcher list), StartsAt = 1,
      EndsAt = 5, UpdatedAt = 0, CreatedBy = [], Comment = [], Status = SilenceStateActive\<rparr>"]
  by (simp add: IsZero_def)

section \<open>Matching a label set\<close>

lemma NewMatcher_Inr:
  "NewMatcher L t n v = Inr m \<Longrightarrow>
     Type m = t \<and> Name m = n \<and> Value m = v
     \<and> (re m \<noteq> None) = (t = MatchRegexp \<or> t = MatchNotRegexp)
     \<and> (\<forall>r. re m = Some r \<longrightarrow> Compile L (''^(?:'' @ v @ '')$'') = Inr r)"
  by (auto simp add: NewMatcher_def Let_def split: if_splits sum.splits)

lemma Matches_wellFormed:
  "wellFormed m \<Longrightarrow> \<exists>b. Matches L m s = Inr b"
  by (cases "Type m") (auto simp add: Matches_def wellFormed_def)

lemma Matchers_Matches_True_iff:
  "(Matchers_Matches L ms lset = Inr True)
     = (\<forall>m \<in> set ms. Matches L m (lookupLabel lset (Name m)) = Inr True)"
proof (induction ms)
  case Nil
  show ?case by simp
next
  case (Cons m ms)
  show ?case
  proof (cases "Matches L m (lookupLabel lset (Name m))")
    case (Inl p)
    then show ?thesis by simp
  next
    case (Inr b)
    with Cons.IH show ?thesis by (cases b) simp_all
  qed
qed

lemma Matchers_Matches_total:
  "\<forall>m \<in> set ms. wellFormed m \<Longrightarrow>
     Matchers_Matches L ms lset
       = Inr (\<forall>m \<in> set ms. Matches L m (lookupLabel lset (Name m)) = Inr True)"
proof (induction ms)
  case Nil
  show ?case by simp
next
  case (Cons m ms)
  from Cons.prems have "wellFormed m" by simp
  then obtain b where b: "Matches L m (lookupLabel lset (Name m)) = Inr b"
    using Matches_wellFormed by blast
  from Cons have IH: "Matchers_Matches L ms lset
       = Inr (\<forall>m \<in> set ms. Matches L m (lookupLabel lset (Name m)) = Inr True)"
    by simp
  show ?case using b IH by (cases b) simp_all
qed

lemma NewMatcher_wellFormed: "NewMatcher L t n v = Inr m \<Longrightarrow> wellFormed m"
  using NewMatcher_Inr [of L t n v m] by (auto simp add: wellFormed_def)

lemma NewMatcher_Matches_regexp:
  "NewMatcher L MatchRegexp n v = Inr m \<Longrightarrow>
     \<exists>r. Compile L (''^(?:'' @ v @ '')$'') = Inr r \<and> Matches L m s = Inr (MatchString L r s)"
  by (auto simp add: NewMatcher_def Matches_def split: sum.splits)

lemma NewMatcher_Matches_not_regexp:
  "NewMatcher L MatchNotRegexp n v = Inr m \<Longrightarrow>
     \<exists>r. Compile L (''^(?:'' @ v @ '')$'') = Inr r \<and> Matches L m s = Inr (\<not> MatchString L r s)"
  by (auto simp add: NewMatcher_def Matches_def split: sum.splits)

text \<open>
  C3: \<open>Matchers.Matches\<close> returns true exactly when every matcher of the list matches the
  value that the label set has under the matcher's name, the empty string when the label
  is absent; when no matcher of the list lacks its compiled expression, as is the case
  for the matchers that \<open>NewMatcher\<close> returns, the call returns that truth value (it
  does not panic).  A matcher compares the value with \<open>Value\<close> for equality
  (\<open>MatchEqual\<close>) or inequality (\<open>MatchNotEqual\<close>), and runs its compiled expression,
  which \<open>NewMatcher\<close> compiles from \<^verbatim>\<open>^(?:\<close>, the value, \<^verbatim>\<open>)$\<close>, on it
  (\<open>MatchRegexp\<close>) or negates that (\<open>MatchNotRegexp\<close>).  The empty list matches every
  label set.
\<close>

theorem Matchers_Matches_spec:
  "(Matchers_Matches L ms lset = Inr True)
      = (\<forall>m \<in> set ms. Matches L m (lookupLabel lset (Name m)) = Inr True)
   \<and> ((\<forall>m \<in> set ms. wellFormed m) \<longrightarrow>
        Matchers_Matches L ms lset
          = Inr (\<forall>m \<in> set ms. Matches L m (lookupLabel lset (Name m)) = Inr True))
   \<and> (lset n = None \<longrightarrow> lookupLabel lset n = [])
   \<and> (lset n = Some v \<longrightarrow> lookupLabel lset n = v)
   \<and> (Type m = MatchEqual \<longrightarrow> Matches L m s = Inr (s = Value m))
   \<and> (Type m = MatchNotEqual \<longrightarrow> Matches L m s = Inr (s \<noteq> Value m))
   \<and> (Type m = MatchRegexp \<and> re m = Some r \<longrightarrow> Matches L m s = Inr (MatchString L r s))
   \<and> (Type m = MatchNotRegexp \<and> re m = Some r \<longrightarrow>
        Matches L m s = Inr (\<not> MatchString L r s))
   \<and> (NewMatcher L t n' v' = Inr m' \<longrightarrow> wellFormed m')
   \<and> (NewMatcher L MatchRegexp n' v' = Inr m' \<longrightarrow>
        (\<exists>r'. Compile L (''^(?:'' @ v' @ '')$'') = Inr r'
            \<and> Matches L m' s = Inr (MatchString L r' s)))
   \<and> (NewMatcher L MatchNotRegexp n' v' = Inr m' \<longrightarrow>
        (\<exists>r'. Compile L (''^(?:'' @ v' @ '')$'') = Inr r'
            \<and> Matches L m' s = Inr (\<not> MatchString L r' s)))
   \<and> Matchers_Matches L [] lset = Inr True"
  using Matchers_Matches_True_iff [of L ms lset] Matchers_Matches_total [of ms L lset]
    NewMatcher_wellFormed [of L t n' v' m']
    NewMatcher_Matches_regexp [of L n' v' m' s] NewMatcher_Matches_not_regexp [of L n' v' m' s]
  by (simp add: lookupLabel_def Matches_def)

theorem Matchers_Matches_spec_witness:
  "Matchers_Matches sampleRegexp
      [\<lparr>Type = MatchEqual, Name = ''job'', Value = ''api'', re = None\<rparr>,
       \<lparr>Type = MatchNotEqual, Name = ''env'', Value = ''dev'', re = None\<rparr>,
       \<lparr>Type = MatchRegexp, Name = ''code'', Value = ''5..'',
          re = Some [Lit CHR ''5'', AnyChar, AnyChar]\<rparr>,
       \<lparr>Type = MatchNotRegexp, Name = ''zone'', Value = ''a'', re = Some [Lit CHR ''a'']\<rparr>]
      [''job'' \<mapsto> ''api'', ''code'' \<mapsto> ''503'']
     = Inr True
   \<and> lookupLabel [''job'' \<mapsto> ''api'', ''code'' \<mapsto> ''503''] ''env'' = []
   \<and> lookupLabel [''job'' \<mapsto> ''api'', ''code'' \<mapsto> ''503''] ''code'' = ''503''
   \<and> Matches sampleRegexp \<lparr>Type = MatchEqual, Name = ''job'', Value = ''api'', re = None\<rparr>
         ''api'' = Inr True
   \<and> Matches sampleRegexp \<lparr>Type = MatchNotEqual, Name = ''env'', Value = ''dev'', re = None\<rparr>
         [] = Inr True
   \<and> NewMatcher sampleRegexp MatchRegexp ''code'' ''5..''
       = Inr \<lparr>Type = MatchRegexp, Name = ''code'', Value = ''5..'',
            re = Some [Lit CHR ''5'', AnyChar, AnyChar]\<rparr>
   \<and> Matches sampleRegexp \<lparr>Type = MatchRegexp, Name = ''code'', Value = ''5..'',
          re = Some [Lit CHR ''5'', AnyChar, AnyChar]\<rparr> ''503'' = Inr True
   \<and> NewMatcher sampleRegexp MatchNotRegexp ''zone'' ''a''
       = Inr \<lparr>Type = MatchNotRegexp, Name = ''zone'', Value = ''a'', re = Some [Lit CHR ''a'']\<rparr>
   \<and> Matches sampleRegexp \<lparr>Type = MatchNotRegexp, Name = ''zone'', Value = ''a'',
          re = Some [Lit CHR ''a'']\<rparr> [] = Inr True"
proof -
  let ?mEq = "\<lparr>Type = MatchEqual, Name = ''job'', Value = ''api'', re = (None :: atom list option)\<rparr>"
  let ?mNe = "\<lparr>Type = MatchNotEqual, Name = ''env'', Value = ''dev'', re = (None :: atom list option)\<rparr>"
  let ?mRe = "\<lparr>Type = MatchRegexp, Name = ''code'', Value = ''5..'',
          re = Some [Lit CHR ''5'', AnyChar, AnyChar]\<rparr>"
  let ?mNr = "\<lparr>Type = MatchNotRegexp, Name = ''zone'', Value = ''a'', re = Some [Lit CHR ''a'']\<rparr>"
  let ?ms = "[?mEq, ?mNe, ?mRe, ?mNr]"
  let ?lset = "[''job'' \<mapsto> ''api'', ''code'' \<mapsto> ''503'']"
  note spec = Matchers_Matches_spec [where L = sampleRegexp and ms = "[]"
      and r = "[]" and t = MatchEqual and n' = "[]" and v' = "[]" and m' = ?mEq]
  have a: "Matches sampleRegexp ?mEq ''api'' = Inr True"
    using spec [where lset = Map.empty and n = "[]" and v = "[]" and m = ?mEq and s = "''api''"]
    by simp
  have b: "Matches sampleRegexp ?mNe [] = Inr True"
    using spec [where lset = Map.empty and n = "[]" and v = "[]" and m = ?mNe and s = "[]"]
    by simp
  have n1: "NewMatcher sampleRegexp MatchRegexp ''code'' ''5..'' = Inr ?mRe"
    by code_simp
  have n2: "NewMatcher sampleRegexp MatchNotRegexp ''zone'' ''a'' = Inr ?mNr"
    by code_simp
  have c1: "Compile sampleRegexp (''^(?:'' @ ''5..'' @ '')$'') = Inr [Lit CHR ''5'', AnyChar, AnyChar]"
    by code_simp
  have c2: "Compile sampleRegexp (''^(?:'' @ ''a'' @ '')$'') = Inr [Lit CHR ''a'']"
    by code_simp
  have m1: "MatchString sampleRegexp [Lit CHR ''5'', AnyChar, AnyChar] ''503''"
    by code_simp
  have m2: "\<not> MatchString sampleRegexp [Lit CHR ''a''] []"
    by code_simp
  have "\<exists>r'. Compile sampleRegexp (''^(?:'' @ ''5..'' @ '')$'') = Inr r'
            \<and> Matches sampleRegexp ?mRe ''503'' = Inr (MatchString sampleRegexp r' ''503'')"
    using Matchers_Matches_spec [where L = sampleRegexp and n' = "''code''" and v' = "''5..''"
        and m' = ?mRe and s = "''503''"] n1
    by blast
  then have c: "Matches sampleRegexp ?mRe ''503'' = Inr True"
    using c1 m1 by auto
  have "\<exists>r'. Compile sampleRegexp (''^(?:'' @ ''a'' @ '')$'') = Inr r'
            \<and> Matches sampleRegexp ?mNr [] = Inr (\<not> MatchString sampleRegexp r' [])"
    using Matchers_Matches_spec [where L = sampleRegexp and n' = "''zone''" and v' = "''a''"
        and m' = ?mNr and s = "[]"] n2
    by blast
  then have d: "Matches sampleRegexp ?mNr [] = Inr True"
    using c2 m2 by auto
  have wRe: "wellFormed ?mRe"
    using Matchers_Matches_spec [where L = sampleRegexp and t = MatchRegexp and n' = "''code''"
        and v' = "''5..''" and m' = ?mRe] n1
    by blast
  have wNr: "wellFormed ?mNr"
    using Matchers_Matches_spec [where L = sampleRegexp and t = MatchNotRegexp
        and n' = "''zone''" and v' = "''a''" and m' = ?mNr] n2
    by blast
  have wf: "\<forall>m \<in> set ?ms. wellFormed m"
    using wRe wNr by (simp add: wellFormed_def)
  have l1: "lookupLabel ?lset ''env'' = []"
    using spec [where lset = ?lset and n = "''env''" and m = ?mEq and s = "[]"] by simp
  have l2: "lookupLabel ?lset ''code'' = ''503''"
    using spec [where lset = ?lset and n = "''code''" and v = "''503''" and m = ?mEq and s = "[]"]
    by simp
  have l3: "lookupLabel ?lset ''job'' = ''api''"
    using spec [where lset = ?lset and n = "''job''" and v = "''api''" and m = ?mEq and s = "[]"]
    by simp
  have l4: "lookupLabel ?lset ''zone'' = []"
    using spec [where lset = ?lset and n = "''zone''" and m = ?mEq and s = "[]"] by simp
  have "Matchers_Matches sampleRegexp ?ms ?lset
          = Inr (\<forall>m \<in> set ?ms. Matches sampleRegexp m (lookupLabel ?lset (Name m)) = Inr True)"
    using Matchers_Matches_spec [where L = sampleRegexp and ms = ?ms and lset = ?lset] wf
    by blast
  also have "\<dots> = Inr True"
    by (simp add: a b c d l1 l2 l3 l4)
  finally have main: "Matchers_Matches sampleRegexp ?ms ?lset = Inr True" .
  show ?thesis
    by (intro conjI main l1 l2 a b n1 c n2 d)
qed

section \<open>Silencing one alert\<close>

lemma silenceLoop_no_match:
  "\<forall>a \<in> set alerts. Fingerprint a \<noteq> fp \<Longrightarrow>
     silenceLoop L env fp d count alerts = Inr (count + length alerts)"
  by (induction alerts arbitrary: count) simp_all

lemma silenceLoop_first_match:
  "\<forall>x \<in> set before. Fingerprint x \<noteq> fp \<Longrightarrow> Fingerprint a = fp \<Longrightarrow>
     silenceLoop L env fp d count (before @ a # after)
       = (case ParseMatchers L (Labels a) of
            Inl err \<Rightarrow> Inl (Some err, [])
          | Inr matchers \<Rightarrow>
              Inl (PostSilence env (newSilence env matchers d), [newSilence env matchers d]))"
  by (induction before arbitrary: count) (simp_all add: Let_def split: sum.splits)

text \<open>
  C6: \<open>(*Bot).silence\<close> on an empty list of alerts returns the error "no alerts found right
  now" and posts nothing; on a non-empty list without the fingerprint it returns the
  different error "no matches found for silence!" and posts nothing; at the first alert
  with the fingerprint it runs \<open>ParseMatchers\<close> on the alert's label string, returns
  its error if it fails, and otherwise posts one silence with these matchers whose
  \<open>StartsAt\<close> is the reading of the clock and whose \<open>EndsAt\<close> is the (next) reading of
  the clock plus the duration, returning what posting returns.  When the clock reads \<open>now\<close>
  throughout the call, these are \<open>now\<close> and \<open>now + duration\<close>.
\<close>

theorem silence_spec:
  "(ListAlerts env = Inr [] \<longrightarrow> silence L env fp d = (Some NoAlertsFound, []))
   \<and> (ListAlerts env = Inr alerts \<and> alerts \<noteq> [] \<and> (\<forall>a \<in> set alerts. Fingerprint a \<noteq> fp) \<longrightarrow>
        silence L env fp d = (Some NoMatchesFound, []))
   \<and> NoAlertsFound \<noteq> NoMatchesFound
   \<and> (ListAlerts env = Inr (before @ a # after) \<and> (\<forall>x \<in> set before. Fingerprint x \<noteq> fp)
        \<and> Fingerprint a = fp \<and> ParseMatchers L (Labels a) = Inl err \<longrightarrow>
        silence L env fp d = (Some err, []))
   \<and> (ListAlerts env = Inr (before @ a # after) \<and> (\<forall>x \<in> set before. Fingerprint x \<noteq> fp)
        \<and> Fingerprint a = fp \<and> ParseMatchers L (Labels a) = Inr ms \<longrightarrow>
        (\<exists>sil. silence L env fp d = (PostSilence env sil, [sil])
           \<and> Matchers sil = ms
           \<and> StartsAt sil = Now env 0
           \<and> EndsAt sil = Now env 1 + d
           \<and> ((\<forall>k. Now env k = now) \<longrightarrow> StartsAt sil = now \<and> EndsAt sil = now + d)))"
proof -
  have empty: "ListAlerts env = Inr [] \<longrightarrow> silence L env fp d = (Some NoAlertsFound, [])"
    by (simp add: silence_def)
  have nomatch: "ListAlerts env = Inr alerts \<and> alerts \<noteq> []
        \<and> (\<forall>a \<in> set alerts. Fingerprint a \<noteq> fp) \<longrightarrow>
        silence L env fp d = (Some NoMatchesFound, [])"
    by (simp add: silence_def silenceLoop_no_match)
  have perr: "ListAlerts env = Inr (before @ a # after)
        \<and> (\<forall>x \<in> set before. Fingerprint x \<noteq> fp)
        \<and> Fingerprint a = fp \<and> ParseMatchers L (Labels a) = Inl err \<longrightarrow>
        silence L env fp d = (Some err, [])"
    by (simp add: silence_def silenceLoop_first_match)
  have found: "ListAlerts env = Inr (before @ a # after)
        \<and> (\<forall>x \<in> set before. Fingerprint x \<noteq> fp)
        \<and> Fingerprint a = fp \<and> ParseMatchers L (Labels a) = Inr ms \<longrightarrow>
        (\<exists>sil. silence L env fp d = (PostSilence env sil, [sil])
           \<and> Matchers sil = ms
           \<and> StartsAt sil = Now env 0
           \<and> EndsAt sil = Now env 1 + d
           \<and> ((\<forall>k. Now env k = now) \<longrightarrow> StartsAt sil = now \<and> EndsAt sil = now + d))"
  proof (intro impI, elim conjE)
    assume la: "ListAlerts env = Inr (before @ a # after)"
      and nb: "\<forall>x \<in> set before. Fingerprint x \<noteq> fp"
      and fa: "Fingerprint a = fp"
      and pm: "ParseMatchers L (Labels a) = Inr ms"
    have "silence L env fp d = (PostSilence env (newSilence env ms d), [newSilence env ms d])"
      using la pm by (simp add: silence_def silenceLoop_first_match [OF nb fa])
    then show "\<exists>sil. silence L env fp d = (PostSilence env sil, [sil])
           \<and> Matchers sil = ms
           \<and> StartsAt sil = Now env 0
           \<and> EndsAt sil = Now env 1 + d
           \<and> ((\<forall>k. Now env k = now) \<longrightarrow> StartsAt sil = now \<and> EndsAt sil = now + d)"
      by (intro exI [of _ "newSilence env ms d"]) (simp add: newSilence_def Add_def)
  qed
  from empty nomatch perr found show ?thesis by simp
qed

theorem silence_spec_witness:
  "silence sampleRegexp
      \<lparr>ListAlerts = Inr [], PostSilence = (\<lambda>_. None), Now = (\<lambda>_. 100)\<rparr> ''f2'' 50
     = (Some NoAlertsFound, [])
   \<and> silence sampleRegexp
      \<lparr>ListAlerts = Inr [\<lparr>Fingerprint = ''f1'', Labels = ''{a=b}''\<rparr>],
        PostSilence = (\<lambda>_. None), Now = (\<lambda>_. 100)\<rparr> ''f2'' 50
     = (Some NoMatchesFound, [])
   \<and> silence sampleRegexp
      \<lparr>ListAlerts = Inr [\<lparr>Fingerprint = ''f1'', Labels = ''{a=b}''\<rparr>,
                         \<lparr>Fingerprint = ''f2'', Labels = '',''\<rparr>],
        PostSilence = (\<lambda>_. None), Now = (\<lambda>_. 100)\<rparr> ''f2'' 50
     = (Some (BadMatcherFormat []), [])
   \<and> (\<exists>sil. silence sampleRegexp
      \<lparr>ListAlerts = Inr [\<lparr>Fingerprint = ''f1'', Labels = ''{a=b}''\<rparr>,
                         \<lparr>Fingerprint = ''f2'', Labels = ''{c=d}''\<rparr>],
        PostSilence = (\<lambda>_. None), Now = (\<lambda>_. 100)\<rparr> ''f2'' 50
          = (None, [sil])
        \<and> Matchers sil = [\<lparr>Type = MatchEqual, Name = ''c'', Value = ''d'', re = None\<rparr>]
        \<and> StartsAt sil = 100 \<and> EndsAt sil = 150)"
proof -
  let ?a1 = "\<lparr>Fingerprint = ''f1'', Labels = ''{a=b}''\<rparr>"
  let ?a2 = "\<lparr>Fingerprint = ''f2'', Labels = ''{c=d}''\<rparr>"
  let ?a3 = "\<lparr>Fingerprint = ''f2'', Labels = '',''\<rparr>"
  let ?post = "\<lambda>_ :: atom list Silence. (None :: error option)"
  let ?env = "\<lambda>as. \<lparr>ListAlerts = Inr as, PostSilence = ?post, Now = (\<lambda>_. 100)\<rparr>"
  have p2: "ParseMatchers sampleRegexp (Labels ?a2)
              = Inr [\<lparr>Type = MatchEqual, Name = ''c'', Value = ''d'', re = None\<rparr>]"
    by code_simp
  have p3: "ParseMatchers sampleRegexp (Labels ?a3) = Inl (BadMatcherFormat [])"
    by code_simp
  have w1: "silence sampleRegexp (?env []) ''f2'' 50 = (Some NoAlertsFound, [])"
    using silence_spec [of "?env []" sampleRegexp "''f2''" 50 "[]" "[]" ?a1 "[]" NoAlertsFound "[]" 100]
    by simp
  have w2: "silence sampleRegexp (?env [?a1]) ''f2'' 50 = (Some NoMatchesFound, [])"
    using silence_spec [of "?env [?a1]" sampleRegexp "''f2''" 50 "[?a1]" "[]" ?a1 "[]" NoAlertsFound "[]" 100]
    by simp
  have w3: "silence sampleRegexp (?env [?a1, ?a3]) ''f2'' 50 = (Some (BadMatcherFormat []), [])"
    using silence_spec [of "?env [?a1, ?a3]" sampleRegexp "''f2''" 50 "[]" "[?a1]" ?a3 "[]"
        "BadMatcherFormat []" "[]" 100] p3
    by simp
  have w4: "\<exists>sil. silence sampleRegexp (?env [?a1, ?a2]) ''f2'' 50 = (None, [sil])
        \<and> Matchers sil = [\<lparr>Type = MatchEqual, Name = ''c'', Value = ''d'', re = None\<rparr>]
        \<and> StartsAt sil = 100 \<and> EndsAt sil = 150"
    using silence_spec [of "?env [?a1, ?a2]" sampleRegexp "''f2''" 50 "[]" "[?a1]" ?a2 "[]"
        NoAlertsFound "[\<lparr>Type = MatchEqual, Name = ''c'', Value = ''d'', re = None\<rparr>]" 100] p2
    by auto
  from w1 w2 w3 w4 show ?thesis by simp
qed
section \<open>UTF-8 decoding and the unescaping loop\<close>

lemma accept2_high: "accept2 t \<Longrightarrow> highBytes 1 t"
  by (cases t) (auto simp add: accept2_def inRange_def highBytes_def)

lemma accept3_high: "accept3 lo hi t \<Longrightarrow> 0x80 \<le> lo \<Longrightarrow> highBytes 2 t"
  by (cases t; cases "tl t") (auto simp add: accept3_def inRange_def highBytes_def numeral_2_eq_2)

lemma accept4_high: "accept4 lo hi t \<Longrightarrow> 0x80 \<le> lo \<Longrightarrow> highBytes 3 t"
  by (cases t; cases "tl t"; cases "tl (tl t)")
     (auto simp add: accept4_def inRange_def highBytes_def numeral_3_eq_3)

lemma accept2_append: "accept2 t \<Longrightarrow> accept2 (t @ x)"
  by (cases t) (auto simp add: accept2_def)

lemma accept3_append: "accept3 lo hi t \<Longrightarrow> accept3 lo hi (t @ x)"
  by (cases t; cases "tl t") (auto simp add: accept3_def)

lemma accept4_append: "accept4 lo hi t \<Longrightarrow> accept4 lo hi (t @ x)"
  by (cases t; cases "tl t"; cases "tl (tl t)") (auto simp add: accept4_def)

lemma runeLen_cases:
  "runeLen (b # t) = Some w \<Longrightarrow>
     (w = 1 \<and> (of_char b :: nat) < 0x80)
   \<or> (2 \<le> w \<and> 0x80 \<le> (of_char b :: nat) \<and> highBytes (w - 1) t)"
  unfolding runeLen_def Let_def list.case
  by (auto split: if_splits dest: accept2_high accept3_high accept4_high)

lemma runeLen_append: "runeLen s = Some w \<Longrightarrow> runeLen (s @ x) = Some w"
  unfolding runeLen_def Let_def
  by (cases s) (auto split: if_splits intro: accept2_append accept3_append accept4_append)

lemma runeLen_ascii: "(of_char b :: nat) < 0x80 \<Longrightarrow> runeLen (b # t) = Some 1"
  by (simp add: runeLen_def)

lemma special_ascii:
  "(of_char quote :: nat) = 0x22" "(of_char backslash :: nat) = 0x5C"
  "(of_char newline :: nat) = 0x0A" "(of_char comma :: nat) = 0x2C"
  "(of_char (CHR ''n'') :: nat) = 0x6E"
  by (simp_all add: quote_def backslash_def newline_def comma_def)

lemma high_not_special:
  "0x80 \<le> (of_char c :: nat) \<Longrightarrow>
     c \<noteq> quote \<and> c \<noteq> backslash \<and> c \<noteq> newline \<and> c \<noteq> comma \<and> c \<noteq> CHR ''n''"
  using special_ascii by auto

lemma unescapeLoop_ascii:
  "(of_char b :: nat) < 0x80 \<Longrightarrow>
   unescapeLoop n i escaped raw val (b # t) =
     (if escaped then
        (if b = CHR ''n'' then unescapeLoop n (i + 1) False raw (val @ [newline]) t
         else if b = quote \<or> b = backslash then unescapeLoop n (i + 1) False raw (val @ [b]) t
         else unescapeLoop n (i + 1) False raw (val @ [backslash, b]) t)
      else if b = backslash then
        (if i < n - 1 then unescapeLoop n (i + 1) True raw val t
         else unescapeLoop n (i + 1) False raw (val @ [backslash]) t)
      else if b = quote then
        (if i < n - 1 then Inl (UnescapedQuote raw)
         else unescapeLoop n (i + 1) False raw val t)
      else unescapeLoop n (i + 1) False raw (val @ [b]) t)"
  by (simp add: runeLen_ascii Let_def)

lemma unescapeLoop_multi:
  "runeLen (b # t) = Some w \<Longrightarrow> 2 \<le> w \<Longrightarrow> highBytes (w - 1) t \<Longrightarrow>
   unescapeLoop n i escaped raw val (b # t) =
     unescapeLoop n (i + int w) False raw
       (val @ (if escaped then [backslash] else []) @ b # take (w - 1) t) (drop (w - 1) t)"
proof -
  assume rl: "runeLen (b # t) = Some w" and w: "2 \<le> w" and hb: "highBytes (w - 1) t"
  from w hb have "take (w - 1) t \<noteq> []"
    by (auto simp add: highBytes_def)
  then show ?thesis
    by (simp add: rl Let_def)
qed

lemma unescBytes_high:
  "\<forall>c \<in> set x. 0x80 \<le> (of_char c :: nat) \<Longrightarrow>
     unescBytes False raw val (x @ rest) = unescBytes False raw (val @ x) rest"
  by (induction x arbitrary: val) (auto dest: high_not_special)

lemma unescapeLoop_bytes:
  "ValidString s \<Longrightarrow> i + int (length s) = n \<Longrightarrow>
     unescapeLoop n i escaped raw val s = unescBytes escaped raw val s"
proof (induction "length s" arbitrary: s i escaped val rule: less_induct)
  case less
  show ?case
  proof (cases s)
    case Nil
    then show ?thesis by simp
  next
    case (Cons b t)
    with less.prems obtain w where rl: "runeLen (b # t) = Some w"
      and vr: "ValidString (drop (w - 1) t)"
      by (auto split: option.splits)
    from runeLen_cases [OF rl] show ?thesis
    proof
      assume a: "w = 1 \<and> (of_char b :: nat) < 0x80"
      with vr have vt: "ValidString t" by simp
      have len: "(i + 1) + int (length t) = n" using less.prems Cons by simp
      have IH: "\<And>e v. unescapeLoop n (i + 1) e raw v t = unescBytes e raw v t"
        using less.hyps [of t "i + 1"] vt len Cons by simp
      have lt: "(i < n - 1) = (t \<noteq> [])" using len by (cases t) auto
      show ?thesis
        unfolding Cons using a
        by (simp only: unescapeLoop_ascii IH lt unescBytes.simps)
    next
      assume a: "2 \<le> w \<and> 0x80 \<le> (of_char b :: nat) \<and> highBytes (w - 1) t"
      then have w: "2 \<le> w" and hb: "highBytes (w - 1) t" and b: "0x80 \<le> (of_char b :: nat)"
        by simp_all
      let ?x = "take (w - 1) t" and ?rest = "drop (w - 1) t"
      have "w \<le> Suc (length t)"
        using hb w by (auto simp add: highBytes_def)
      then have len: "(i + int w) + int (length ?rest) = n"
        using less.prems(2) Cons w by (cases w) (auto simp add: of_nat_diff)
      have IH: "\<And>e v. unescapeLoop n (i + int w) e raw v ?rest = unescBytes e raw v ?rest"
        using less.hyps [of ?rest "i + int w"] vr len Cons w by simp
      have hx: "\<forall>c \<in> set ?x. 0x80 \<le> (of_char c :: nat)"
        using hb by (simp add: highBytes_def)
      have t: "t = ?x @ ?rest" by simp
      have "unescBytes escaped raw val (b # t)
              = unescBytes False raw (val @ (if escaped then [backslash] else []) @ [b]) t"
        using high_not_special [OF b] by simp
      also have "\<dots> = unescBytes False raw (val @ (if escaped then [backslash] else []) @ [b])
                          (?x @ ?rest)"
        by simp
      also have "\<dots> = unescBytes False raw
                          ((val @ (if escaped then [backslash] else []) @ [b]) @ ?x) ?rest"
        by (rule unescBytes_high [OF hx])
      finally have rhs: "unescBytes escaped raw val (b # t)
              = unescBytes False raw (val @ (if escaped then [backslash] else []) @ b # ?x) ?rest"
        by (simp only: append_assoc append_Cons append_Nil)
      show ?thesis
        unfolding Cons
        by (simp only: unescapeLoop_multi [OF rl w hb] IH rhs)
    qed
  qed
qed

lemma special_neq [simp]:
  "backslash \<noteq> quote" "quote \<noteq> backslash"
  "backslash \<noteq> CHR ''n''" "quote \<noteq> CHR ''n''"
  "CHR ''n'' \<noteq> backslash" "CHR ''n'' \<noteq> quote"
  "newline \<noteq> quote" "newline \<noteq> backslash"
  "quote \<noteq> newline" "backslash \<noteq> newline"
  "comma \<noteq> quote" "comma \<noteq> backslash" "quote \<noteq> comma" "backslash \<noteq> comma"
  by (simp_all add: quote_def backslash_def newline_def comma_def)

lemma unescBytes_spec:
  "unescBytes False raw val s =
     (case specUnescape s of
        None \<Rightarrow> Inl (UnescapedQuote raw)
      | Some v \<Rightarrow> Inr (val @ v))"
proof (induction s arbitrary: val rule: specUnescape.induct)
  case 1
  show ?case by simp
next
  case (2 c)
  show ?case by simp
next
  case (3 c d s)
  show ?case
  proof (cases "c = backslash")
    case True
    then show ?thesis
      using "3.IH"(1-4) by (simp split: option.splits)
  next
    case False
    then show ?thesis
      using "3.IH"(5) by (simp split: option.splits)
  qed
qed

lemma unescapeLoop_spec:
  "ValidString raw \<Longrightarrow>
     unescapeLoop (int (length raw)) 0 False raw [] raw =
       (case specUnescape raw of
          None \<Rightarrow> Inl (UnescapedQuote raw)
        | Some v \<Rightarrow> Inr v)"
  by (simp add: unescapeLoop_bytes unescBytes_spec split: option.splits)

lemma ParseMatcher_unfold:
  "ParseMatcher L s =
     (case FindStringSubmatch s of
        None \<Rightarrow> Inl (BadMatcherFormat s)
      | Some (name, op, v) \<Rightarrow>
          if \<not> ValidString (TrimPrefix v [quote]) then Inl (NotValidUTF8 (TrimPrefix v [quote]))
          else
            (case specUnescape (TrimPrefix v [quote]) of
               None \<Rightarrow> Inl (UnescapedQuote (TrimPrefix v [quote]))
             | Some val \<Rightarrow> NewMatcher L (typeMap op) name val))"
  by (simp add: ParseMatcher_def Let_def unescapeLoop_spec split: option.splits prod.splits)

lemma runeLen_bounds: "runeLen s = Some w \<Longrightarrow> 1 \<le> w \<and> w \<le> length s"
proof (cases s)
  case Nil
  assume "runeLen s = Some w"
  with Nil show ?thesis by (simp add: runeLen_def)
next
  case (Cons b t)
  assume "runeLen s = Some w"
  with Cons have "runeLen (b # t) = Some w" by simp
  from runeLen_cases [OF this] Cons show ?thesis
    by (auto simp add: highBytes_def)
qed

lemma ValidString_append:
  "ValidString a \<Longrightarrow> ValidString (a @ b) = ValidString b"
proof (induction "length a" arbitrary: a rule: less_induct)
  case less
  show ?case
  proof (cases a)
    case Nil
    then show ?thesis by simp
  next
    case (Cons c t)
    with less.prems obtain w where rl: "runeLen (c # t) = Some w"
      and vr: "ValidString (drop (w - 1) t)"
      by (auto split: option.splits)
    from runeLen_bounds [OF rl] have w: "w - 1 \<le> length t" by auto
    have rl': "runeLen (c # (t @ b)) = Some w"
      using runeLen_append [OF rl, of b] by simp
    have "ValidString (a @ b) = ValidString (drop (w - 1) t @ b)"
      using Cons rl' w by simp
    also have "\<dots> = ValidString b"
      using less.hyps [of "drop (w - 1) t"] vr Cons by simp
    finally show ?thesis .
  qed
qed

lemma ValidString_ascii:
  "\<forall>c \<in> set s. (of_char c :: nat) < 0x80 \<Longrightarrow> ValidString s"
  by (induction s) (simp_all add: runeLen_ascii)

lemma ValidString_snoc_quote: "ValidString v \<Longrightarrow> ValidString (v @ [quote])"
  using ValidString_append [of v "[quote]"] by (simp add: runeLen_ascii special_ascii)

section \<open>Parsing one matcher\<close>

lemma TrimPrefix_quote:
  "TrimPrefix (quote # v) [quote] = v"
  "v = [] \<or> hd v \<noteq> quote \<Longrightarrow> TrimPrefix v [quote] = v"
  by (cases v; simp add: TrimPrefix_def)+

lemma ParseMatcher_Inr_unescaped:
  "ParseMatcher L s = Inr m \<Longrightarrow>
     \<exists>name op v. FindStringSubmatch s = Some (name, op, v)
        \<and> ValidString (TrimPrefix v [quote])
        \<and> specUnescape (TrimPrefix v [quote]) = Some (Value m)
        \<and> Name m = name \<and> Type m = typeMap op"
proof -
  assume a: "ParseMatcher L s = Inr m"
  then obtain name op v where f: "FindStringSubmatch s = Some (name, op, v)"
    by (auto simp add: ParseMatcher_unfold split: option.splits)
  from a f have v: "ValidString (TrimPrefix v [quote])"
    by (auto simp add: ParseMatcher_unfold split: if_splits)
  from a f v obtain val where u: "specUnescape (TrimPrefix v [quote]) = Some val"
    and n: "NewMatcher L (typeMap op) name val = Inr m"
    by (auto simp add: ParseMatcher_unfold split: option.splits)
  from NewMatcher_Inr [OF n] f v u show ?thesis by auto
qed

lemma typeMap_cases:
  "typeMap ''='' = MatchEqual" "typeMap ''!='' = MatchNotEqual"
  "typeMap ''=~'' = MatchRegexp" "typeMap ''!~'' = MatchNotRegexp"
  by (simp_all add: typeMap_def)

text \<open>
  C1: \<open>ParseMatcher\<close> strips one leading quote from the value token, rejects a value
  that is not valid UTF-8, and otherwise unescapes it as the specification says
  (\<open>specUnescape\<close>): the escapes for line feed, quote and backslash, a literal backslash
  before any other character, and the error for an unescaped quote that is not the last
  character.  Each of these failures is a \<open>SyntaxError\<close>; \<^verbatim>\<open>foo="a"b"\<close> fails so.
  The matcher returned has the unescaped string as its \<open>Value\<close>, and it is returned
  whenever the value unescapes and, for the two regular-expression operators, the
  anchored value compiles; \<^verbatim>\<open>quote="She said: \"Hi\""\<close> has the value
  \<^verbatim>\<open>She said: "Hi"\<close>.
\<close>

theorem ParseMatcher_unescapes:
  "ParseMatcher L s =
     (case FindStringSubmatch s of
        None \<Rightarrow> Inl (BadMatcherFormat s)
      | Some (name, op, v) \<Rightarrow>
          if \<not> ValidString (TrimPrefix v [quote]) then Inl (NotValidUTF8 (TrimPrefix v [quote]))
          else
            (case specUnescape (TrimPrefix v [quote]) of
               None \<Rightarrow> Inl (UnescapedQuote (TrimPrefix v [quote]))
             | Some val \<Rightarrow> NewMatcher L (typeMap op) name val))
   \<and> TrimPrefix (quote # v) [quote] = v
   \<and> (FindStringSubmatch s = Some (name, op, v)
        \<and> (\<not> ValidString (TrimPrefix v [quote]) \<or> specUnescape (TrimPrefix v [quote]) = None)
        \<longrightarrow> (\<exists>e. ParseMatcher L s = Inl e \<and> isSyntaxError e))
   \<and> ParseMatcher L (''foo='' @ [quote] @ ''a'' @ [quote] @ ''b'' @ [quote])
        = Inl (UnescapedQuote (''a'' @ [quote] @ ''b'' @ [quote]))
   \<and> (ParseMatcher L s = Inr m \<longrightarrow>
        (\<exists>name' op' v'. FindStringSubmatch s = Some (name', op', v')
           \<and> ValidString (TrimPrefix v' [quote])
           \<and> specUnescape (TrimPrefix v' [quote]) = Some (Value m)
           \<and> Name m = name' \<and> Type m = typeMap op'))
   \<and> (FindStringSubmatch s = Some (name, op, v) \<and> ValidString (TrimPrefix v [quote])
        \<and> specUnescape (TrimPrefix v [quote]) = Some val \<and> (op = ''='' \<or> op = ''!='')
        \<longrightarrow> ParseMatcher L s = Inr \<lparr>Type = typeMap op, Name = name, Value = val, re = None\<rparr>)
   \<and> (FindStringSubmatch s = Some (name, op, v) \<and> ValidString (TrimPrefix v [quote])
        \<and> specUnescape (TrimPrefix v [quote]) = Some val \<and> (op = ''=~'' \<or> op = ''!~'')
        \<and> Compile L (''^(?:'' @ val @ '')$'') = Inr r
        \<longrightarrow> ParseMatcher L s = Inr \<lparr>Type = typeMap op, Name = name, Value = val, re = Some r\<rparr>)
   \<and> ParseMatcher L (''quote='' @ [quote] @ ''She said: '' @ [backslash, quote] @ ''Hi''
          @ [backslash, quote, quote])
        = Inr \<lparr>Type = MatchEqual, Name = ''quote'',
               Value = ''She said: '' @ [quote] @ ''Hi'' @ [quote], re = None\<rparr>
   \<and> ParseMatcher L (''a=x'' @ [backslash] @ ''ny'' @ [backslash, backslash] @ ''z''
          @ [backslash] @ ''q'')
        = Inr \<lparr>Type = MatchEqual, Name = ''a'',
               Value = ''x'' @ [newline] @ ''y'' @ [backslash] @ ''z'' @ [backslash] @ ''q'',
               re = None\<rparr>"
proof -
  have f: "FindStringSubmatch (''foo='' @ [quote] @ ''a'' @ [quote] @ ''b'' @ [quote])
             = Some (''foo'', ''='', [quote] @ ''a'' @ [quote] @ ''b'' @ [quote])"
    by code_simp
  have v: "ValidString (''a'' @ [quote] @ ''b'' @ [quote])"
    by code_simp
  have u: "specUnescape (''a'' @ [quote] @ ''b'' @ [quote]) = None"
    by code_simp
  have ex: "ParseMatcher L (''foo='' @ [quote] @ ''a'' @ [quote] @ ''b'' @ [quote])
        = Inl (UnescapedQuote (''a'' @ [quote] @ ''b'' @ [quote]))"
    using f v u by (simp add: ParseMatcher_unfold TrimPrefix_quote(1))
  have old: "ParseMatcher L s =
     (case FindStringSubmatch s of
        None \<Rightarrow> Inl (BadMatcherFormat s)
      | Some (name, op, v) \<Rightarrow>
          if \<not> ValidString (TrimPrefix v [quote]) then Inl (NotValidUTF8 (TrimPrefix v [quote]))
          else
            (case specUnescape (TrimPrefix v [quote]) of
               None \<Rightarrow> Inl (UnescapedQuote (TrimPrefix v [quote]))
             | Some val \<Rightarrow> NewMatcher L (typeMap op) name val))
   \<and> TrimPrefix (quote # v) [quote] = v
   \<and> (FindStringSubmatch s = Some (name, op, v)
        \<and> (\<not> ValidString (TrimPrefix v [quote]) \<or> specUnescape (TrimPrefix v [quote]) = None)
        \<longrightarrow> (\<exists>e. ParseMatcher L s = Inl e \<and> isSyntaxError e))"
    by (auto simp add: ParseMatcher_unfold [of L s] TrimPrefix_quote(1))
  have val: "ParseMatcher L s = Inr m \<longrightarrow>
        (\<exists>name' op' v'. FindStringSubmatch s = Some (name', op', v')
           \<and> ValidString (TrimPrefix v' [quote])
           \<and> specUnescape (TrimPrefix v' [quote]) = Some (Value m)
           \<and> Name m = name' \<and> Type m = typeMap op')"
    using ParseMatcher_Inr_unescaped [of L s m] by blast
  have eq: "FindStringSubmatch s = Some (name, op, v) \<and> ValidString (TrimPrefix v [quote])
        \<and> specUnescape (TrimPrefix v [quote]) = Some val \<and> (op = ''='' \<or> op = ''!='')
        \<longrightarrow> ParseMatcher L s = Inr \<lparr>Type = typeMap op, Name = name, Value = val, re = None\<rparr>"
    by (auto simp add: ParseMatcher_unfold NewMatcher_def typeMap_cases)
  have rx: "FindStringSubmatch s = Some (name, op, v) \<and> ValidString (TrimPrefix v [quote])
        \<and> specUnescape (TrimPrefix v [quote]) = Some val \<and> (op = ''=~'' \<or> op = ''!~'')
        \<and> Compile L (''^(?:'' @ val @ '')$'') = Inr r
        \<longrightarrow> ParseMatcher L s = Inr \<lparr>Type = typeMap op, Name = name, Value = val, re = Some r\<rparr>"
    by (auto simp add: ParseMatcher_unfold NewMatcher_def typeMap_cases)
  have f1: "FindStringSubmatch (''quote='' @ [quote] @ ''She said: '' @ [backslash, quote] @ ''Hi''
          @ [backslash, quote, quote])
      = Some (''quote'', ''='', quote # ''She said: '' @ [backslash, quote] @ ''Hi''
          @ [backslash, quote, quote])"
    by code_simp
  have v1: "ValidString (''She said: '' @ [backslash, quote] @ ''Hi'' @ [backslash, quote, quote])"
    by code_simp
  have u1: "specUnescape (''She said: '' @ [backslash, quote] @ ''Hi'' @ [backslash, quote, quote])
      = Some (''She said: '' @ [quote] @ ''Hi'' @ [quote])"
    by code_simp
  have ex1: "ParseMatcher L (''quote='' @ [quote] @ ''She said: '' @ [backslash, quote] @ ''Hi''
          @ [backslash, quote, quote])
        = Inr \<lparr>Type = MatchEqual, Name = ''quote'',
               Value = ''She said: '' @ [quote] @ ''Hi'' @ [quote], re = None\<rparr>"
    using f1 v1 u1
    by (simp add: ParseMatcher_unfold TrimPrefix_quote(1) NewMatcher_def typeMap_cases)
  have f2: "FindStringSubmatch (''a=x'' @ [backslash] @ ''ny'' @ [backslash, backslash] @ ''z''
          @ [backslash] @ ''q'')
      = Some (''a'', ''='', ''x'' @ [backslash] @ ''ny'' @ [backslash, backslash] @ ''z''
          @ [backslash] @ ''q'')"
    by code_simp
  have t2: "TrimPrefix (''x'' @ [backslash] @ ''ny'' @ [backslash, backslash] @ ''z''
          @ [backslash] @ ''q'') [quote]
      = ''x'' @ [backslash] @ ''ny'' @ [backslash, backslash] @ ''z'' @ [backslash] @ ''q''"
    by code_simp
  have v2: "ValidString (''x'' @ [backslash] @ ''ny'' @ [backslash, backslash] @ ''z''
          @ [backslash] @ ''q'')"
    by code_simp
  have u2: "specUnescape (''x'' @ [backslash] @ ''ny'' @ [backslash, backslash] @ ''z''
          @ [backslash] @ ''q'')
      = Some (''x'' @ [newline] @ ''y'' @ [backslash] @ ''z'' @ [backslash] @ ''q'')"
    by code_simp
  have ex2: "ParseMatcher L (''a=x'' @ [backslash] @ ''ny'' @ [backslash, backslash] @ ''z''
          @ [backslash] @ ''q'')
        = Inr \<lparr>Type = MatchEqual, Name = ''a'',
               Value = ''x'' @ [newline] @ ''y'' @ [backslash] @ ''z'' @ [backslash] @ ''q'',
               re = None\<rparr>"
    using f2 t2 v2 u2
    by (simp add: ParseMatcher_unfold NewMatcher_def typeMap_cases)
  from old ex val eq rx ex1 ex2 show ?thesis by blast
qed

theorem ParseMatcher_unescapes_witness:
  "FindStringSubmatch (''a='' @ [quote, quote, CHR ''b''])
      = Some (''a'', ''='', [quote, quote, CHR ''b''])
   \<and> specUnescape (TrimPrefix [quote, quote, CHR ''b''] [quote]) = None
   \<and> (\<exists>e. ParseMatcher sampleRegexp (''a='' @ [quote, quote, CHR ''b'']) = Inl e
          \<and> isSyntaxError e)
   \<and> FindStringSubmatch (''msg != '' @ [quote] @ ''a'' @ [backslash] @ ''nb''
          @ [backslash, backslash] @ ''c'' @ [backslash, quote] @ ''d'' @ [backslash] @ ''e''
          @ [quote])
      = Some (''msg'', ''!='', [quote] @ ''a'' @ [backslash] @ ''nb''
          @ [backslash, backslash] @ ''c'' @ [backslash, quote] @ ''d'' @ [backslash] @ ''e''
          @ [quote])
   \<and> specUnescape (TrimPrefix ([quote] @ ''a'' @ [backslash] @ ''nb''
          @ [backslash, backslash] @ ''c'' @ [backslash, quote] @ ''d'' @ [backslash] @ ''e''
          @ [quote]) [quote])
      = Some (''a'' @ [newline] @ ''b'' @ [backslash] @ ''c'' @ [quote] @ ''d''
          @ [backslash] @ ''e'')
   \<and> ParseMatcher sampleRegexp (''msg != '' @ [quote] @ ''a'' @ [backslash] @ ''nb''
          @ [backslash, backslash] @ ''c'' @ [backslash, quote] @ ''d'' @ [backslash] @ ''e''
          @ [quote])
      = Inr \<lparr>Type = MatchNotEqual, Name = ''msg'',
             Value = ''a'' @ [newline] @ ''b'' @ [backslash] @ ''c'' @ [quote] @ ''d''
               @ [backslash] @ ''e'',
             re = None\<rparr>
   \<and> FindStringSubmatch (''code=~'' @ [quote] @ ''5..'' @ [quote])
      = Some (''code'', ''=~'', [quote] @ ''5..'' @ [quote])
   \<and> specUnescape (TrimPrefix ([quote] @ ''5..'' @ [quote]) [quote]) = Some ''5..''
   \<and> Compile sampleRegexp (''^(?:'' @ ''5..'' @ '')$'') = Inr [Lit CHR ''5'', AnyChar, AnyChar]
   \<and> ParseMatcher sampleRegexp (''code=~'' @ [quote] @ ''5..'' @ [quote])
      = Inr \<lparr>Type = MatchRegexp, Name = ''code'', Value = ''5..'',
             re = Some [Lit CHR ''5'', AnyChar, AnyChar]\<rparr>
   \<and> specUnescape (''5..'' @ [quote])
      = Some (Value \<lparr>Type = MatchRegexp, Name = ''code'', Value = ''5..'',
             re = Some [Lit CHR ''5'', AnyChar, AnyChar]\<rparr>)"
proof -
  let ?s0 = "''a='' @ [quote, quote, CHR ''b'']"
  let ?v1 = "[quote] @ ''a'' @ [backslash] @ ''nb''
          @ [backslash, backslash] @ ''c'' @ [backslash, quote] @ ''d'' @ [backslash] @ ''e''
          @ [quote]"
  let ?s1 = "''msg != '' @ ?v1"
  let ?val1 = "''a'' @ [newline] @ ''b'' @ [backslash] @ ''c'' @ [quote] @ ''d''
          @ [backslash] @ ''e''"
  let ?v2 = "[quote] @ ''5..'' @ [quote]"
  let ?s2 = "''code=~'' @ ?v2"
  let ?r2 = "[Lit CHR ''5'', AnyChar, AnyChar]"
  let ?m2 = "\<lparr>Type = MatchRegexp, Name = ''code'', Value = ''5..'', re = Some ?r2\<rparr>"
  have f0: "FindStringSubmatch ?s0 = Some (''a'', ''='', [quote, quote, CHR ''b''])"
    by code_simp
  have u0: "specUnescape (TrimPrefix [quote, quote, CHR ''b''] [quote]) = None"
    by code_simp
  have w0: "\<exists>e. ParseMatcher sampleRegexp ?s0 = Inl e \<and> isSyntaxError e"
    using ParseMatcher_unescapes [where L = sampleRegexp and s = ?s0 and name = "''a''"
        and op = "''=''" and v = "[quote, quote, CHR ''b'']"] f0 u0
    by blast
  have f1: "FindStringSubmatch ?s1 = Some (''msg'', ''!='', ?v1)"
    by code_simp
  have v1: "ValidString (TrimPrefix ?v1 [quote])"
    by code_simp
  have u1: "specUnescape (TrimPrefix ?v1 [quote]) = Some ?val1"
    by code_simp
  have t1: "typeMap ''!='' = MatchNotEqual"
    by (simp add: typeMap_def)
  have "ParseMatcher sampleRegexp ?s1
          = Inr \<lparr>Type = typeMap ''!='', Name = ''msg'', Value = ?val1, re = None\<rparr>"
    using ParseMatcher_unescapes [where L = sampleRegexp and s = ?s1 and name = "''msg''"
        and op = "''!=''" and v = ?v1 and val = ?val1] f1 v1 u1
    by blast
  then have w1: "ParseMatcher sampleRegexp ?s1
          = Inr \<lparr>Type = MatchNotEqual, Name = ''msg'', Value = ?val1, re = None\<rparr>"
    by (simp only: t1)
  have f2: "FindStringSubmatch ?s2 = Some (''code'', ''=~'', ?v2)"
    by code_simp
  have v2: "ValidString (TrimPrefix ?v2 [quote])"
    by code_simp
  have u2: "specUnescape (TrimPrefix ?v2 [quote]) = Some ''5..''"
    by code_simp
  have c2: "Compile sampleRegexp (''^(?:'' @ ''5..'' @ '')$'') = Inr ?r2"
    by code_simp
  have t2: "typeMap ''=~'' = MatchRegexp"
    by (simp add: typeMap_def)
  have "ParseMatcher sampleRegexp ?s2
          = Inr \<lparr>Type = typeMap ''=~'', Name = ''code'', Value = ''5..'', re = Some ?r2\<rparr>"
    using ParseMatcher_unescapes [where L = sampleRegexp and s = ?s2 and name = "''code''"
        and op = "''=~''" and v = ?v2 and val = "''5..''" and r = ?r2] f2 v2 u2 c2
    by blast
  then have w2: "ParseMatcher sampleRegexp ?s2 = Inr ?m2"
    by (simp only: t2)
  obtain name' op' v' where "FindStringSubmatch ?s2 = Some (name', op', v')"
    and "specUnescape (TrimPrefix v' [quote]) = Some (Value ?m2)"
    using ParseMatcher_unescapes [where L = sampleRegexp and s = ?s2 and m = ?m2] w2
    by blast
  with f2 have "specUnescape (TrimPrefix ?v2 [quote]) = Some (Value ?m2)"
    by simp
  then have w3: "specUnescape (''5..'' @ [quote]) = Some (Value ?m2)"
    by (simp add: TrimPrefix_def)
  show ?thesis
    by (intro conjI f0 u0 w0 f1 u1 w1 f2 u2 c2 w2 w3)
qed

lemma specUnescape_final_quote:
  "\<not> openEscape raw \<Longrightarrow> specUnescape (raw @ [quote]) = specBody raw"
proof (induction raw rule: specBody.induct)
  case 1
  show ?case by simp
next
  case (2 c)
  then show ?case by simp
next
  case (3 c d s)
  then show ?case by (cases "c = backslash") simp_all
qed

lemma specUnescape_escaped_quote:
  "openEscape raw \<Longrightarrow>
     specUnescape (raw @ [quote]) = map_option (\<lambda>v. v @ [quote]) (specBody (butlast raw))"
proof (induction raw rule: specBody.induct)
  case 1
  then show ?case by simp
next
  case (2 c)
  then show ?case by simp
next
  case (3 c d s)
  show ?case
  proof (cases "c = backslash")
    case True
    with "3.prems" have o: "openEscape s" by simp
    then have "s \<noteq> []" by auto
    then show ?thesis
      using True o "3.IH"(1-4) by (simp add: option.map_comp comp_def)
  next
    case False
    with "3.prems" have o: "openEscape (d # s)" by simp
    show ?thesis
    proof (cases "c = quote")
      case True
      then show ?thesis by simp
    next
      case nq: False
      show ?thesis
        using False nq o "3.IH"(5) by (simp add: option.map_comp comp_def)
    qed
  qed
qed

text \<open>
  C9, as stated, fails for a final quote that is escaped: in \<^verbatim>\<open>foo=bar\"\<close> the value
  token ends in a quote, and the quote stays in the value.
\<close>

theorem ParseMatcher_final_quote_counterexample:
  "ParseMatcher sampleRegexp (''foo=bar'' @ [backslash, quote])
     = Inr \<lparr>Type = MatchEqual, Name = ''foo'', Value = ''bar'' @ [quote], re = None\<rparr>"
  by code_simp

text \<open>
  C9 (amended): quoting need not be balanced.  When the value token, after its leading
  quote (if any) is removed, ends in a quote that is not escaped, that quote is dropped:
  the value is the unescaping of what precedes it, and parsing fails only if that part
  has an unescaped quote of its own; whether the token began with a quote plays no role.
  So \<^verbatim>\<open>foo=bar"\<close> parses, with value \<open>bar\<close>.  A final quote that is escaped is kept as
  a quote of the value.
\<close>

theorem ParseMatcher_unbalanced_quote:
  "ParseMatcher L (''foo=bar'' @ [quote])
     = Inr \<lparr>Type = MatchEqual, Name = ''foo'', Value = ''bar'', re = None\<rparr>
   \<and> (FindStringSubmatch s = Some (name, op, tok)
        \<and> TrimPrefix tok [quote] = raw @ [quote] \<and> ValidString raw \<and> \<not> openEscape raw
        \<longrightarrow> ParseMatcher L s =
             (case specBody raw of
                None \<Rightarrow> Inl (UnescapedQuote (raw @ [quote]))
              | Some val \<Rightarrow> NewMatcher L (typeMap op) name val))
   \<and> (FindStringSubmatch s = Some (name, op, tok)
        \<and> TrimPrefix tok [quote] = raw @ [quote] \<and> ValidString raw \<and> openEscape raw
        \<longrightarrow> ParseMatcher L s =
             (case specBody (butlast raw) of
                None \<Rightarrow> Inl (UnescapedQuote (raw @ [quote]))
              | Some val \<Rightarrow> NewMatcher L (typeMap op) name (val @ [quote])))"
proof -
  have f: "FindStringSubmatch (''foo=bar'' @ [quote]) = Some (''foo'', ''='', ''bar'' @ [quote])"
    by code_simp
  have t: "TrimPrefix (''bar'' @ [quote]) [quote] = ''bar'' @ [quote]"
    by code_simp
  have v: "ValidString (''bar'' @ [quote])"
    by code_simp
  have u: "specUnescape (''bar'' @ [quote]) = Some ''bar''"
    by code_simp
  have ex: "ParseMatcher L (''foo=bar'' @ [quote])
     = Inr \<lparr>Type = MatchEqual, Name = ''foo'', Value = ''bar'', re = None\<rparr>"
    using f t v u by (simp add: ParseMatcher_unfold NewMatcher_def typeMap_def)
  have dropped: "FindStringSubmatch s = Some (name, op, tok)
        \<and> TrimPrefix tok [quote] = raw @ [quote] \<and> ValidString raw \<and> \<not> openEscape raw
        \<longrightarrow> ParseMatcher L s =
             (case specBody raw of
                None \<Rightarrow> Inl (UnescapedQuote (raw @ [quote]))
              | Some val \<Rightarrow> NewMatcher L (typeMap op) name val)"
    by (auto simp add: ParseMatcher_unfold ValidString_snoc_quote specUnescape_final_quote
          split: option.splits)
  have kept: "FindStringSubmatch s = Some (name, op, tok)
        \<and> TrimPrefix tok [quote] = raw @ [quote] \<and> ValidString raw \<and> openEscape raw
        \<longrightarrow> ParseMatcher L s =
             (case specBody (butlast raw) of
                None \<Rightarrow> Inl (UnescapedQuote (raw @ [quote]))
              | Some val \<Rightarrow> NewMatcher L (typeMap op) name (val @ [quote]))"
    by (auto simp add: ParseMatcher_unfold ValidString_snoc_quote specUnescape_escaped_quote
          split: option.splits)
  from ex dropped kept show ?thesis by blast
qed

theorem ParseMatcher_unbalanced_quote_witness:
  "FindStringSubmatch (''env!=pr'' @ [backslash, backslash, quote])
      = Some (''env'', ''!='', ''pr'' @ [backslash, backslash, quote])
   \<and> TrimPrefix (''pr'' @ [backslash, backslash, quote]) [quote]
       = (''pr'' @ [backslash, backslash]) @ [quote]
   \<and> ValidString (''pr'' @ [backslash, backslash])
   \<and> openEscape (''pr'' @ [backslash, backslash]) = False
   \<and> ParseMatcher sampleRegexp (''env!=pr'' @ [backslash, backslash, quote])
       = Inr \<lparr>Type = MatchNotEqual, Name = ''env'', Value = ''pr'' @ [backslash], re = None\<rparr>
   \<and> FindStringSubmatch (''foo=bar'' @ [backslash, quote])
      = Some (''foo'', ''='', ''bar'' @ [backslash, quote])
   \<and> TrimPrefix (''bar'' @ [backslash, quote]) [quote] = (''bar'' @ [backslash]) @ [quote]
   \<and> ValidString (''bar'' @ [backslash])
   \<and> openEscape (''bar'' @ [backslash])
   \<and> ParseMatcher sampleRegexp (''foo=bar'' @ [backslash, quote])
       = Inr \<lparr>Type = MatchEqual, Name = ''foo'', Value = ''bar'' @ [quote], re = None\<rparr>"
proof -
  let ?r1 = "''pr'' @ [backslash, backslash]" and ?r2 = "''bar'' @ [backslash]"
  have f1: "FindStringSubmatch (''env!=pr'' @ [backslash, backslash, quote])
      = Some (''env'', ''!='', ''pr'' @ [backslash, backslash, quote])"
    by code_simp
  have t1: "TrimPrefix (''pr'' @ [backslash, backslash, quote]) [quote] = ?r1 @ [quote]"
    by code_simp
  have v1: "ValidString ?r1"
    by code_simp
  have o1: "openEscape ?r1 = False"
    by code_simp
  have b1: "specBody ?r1 = Some (''pr'' @ [backslash])"
    by code_simp
  have n1: "NewMatcher sampleRegexp (typeMap ''!='') ''env'' (''pr'' @ [backslash])
             = Inr \<lparr>Type = MatchNotEqual, Name = ''env'', Value = ''pr'' @ [backslash], re = None\<rparr>"
    by (simp add: NewMatcher_def typeMap_def)
  have "ParseMatcher sampleRegexp (''env!=pr'' @ [backslash, backslash, quote]) =
          (case specBody ?r1 of
             None \<Rightarrow> Inl (UnescapedQuote (?r1 @ [quote]))
           | Some val \<Rightarrow> NewMatcher sampleRegexp (typeMap ''!='') ''env'' val)"
    using ParseMatcher_unbalanced_quote [where L = sampleRegexp
        and s = "''env!=pr'' @ [backslash, backslash, quote]" and name = "''env''"
        and op = "''!=''" and tok = "''pr'' @ [backslash, backslash, quote]" and raw = ?r1]
      f1 t1 v1 o1
    by blast
  then have w1: "ParseMatcher sampleRegexp (''env!=pr'' @ [backslash, backslash, quote])
       = Inr \<lparr>Type = MatchNotEqual, Name = ''env'', Value = ''pr'' @ [backslash], re = None\<rparr>"
    by (simp only: b1 n1 option.case)
  have f2: "FindStringSubmatch (''foo=bar'' @ [backslash, quote])
      = Some (''foo'', ''='', ''bar'' @ [backslash, quote])"
    by code_simp
  have t2: "TrimPrefix (''bar'' @ [backslash, quote]) [quote] = ?r2 @ [quote]"
    by code_simp
  have v2: "ValidString ?r2"
    by code_simp
  have o2: "openEscape ?r2"
    by code_simp
  have b2: "specBody (butlast ?r2) = Some ''bar''"
    by code_simp
  have n2: "NewMatcher sampleRegexp (typeMap ''='') ''foo'' (''bar'' @ [quote])
             = Inr \<lparr>Type = MatchEqual, Name = ''foo'', Value = ''bar'' @ [quote], re = None\<rparr>"
    by (simp add: NewMatcher_def typeMap_def)
  have "ParseMatcher sampleRegexp (''foo=bar'' @ [backslash, quote]) =
          (case specBody (butlast ?r2) of
             None \<Rightarrow> Inl (UnescapedQuote (?r2 @ [quote]))
           | Some val \<Rightarrow> NewMatcher sampleRegexp (typeMap ''='') ''foo'' (val @ [quote]))"
    using ParseMatcher_unbalanced_quote [where L = sampleRegexp
        and s = "''foo=bar'' @ [backslash, quote]" and name = "''foo''"
        and op = "''=''" and tok = "''bar'' @ [backslash, quote]" and raw = ?r2]
      f2 t2 v2 o2
    by blast
  then have w2: "ParseMatcher sampleRegexp (''foo=bar'' @ [backslash, quote])
       = Inr \<lparr>Type = MatchEqual, Name = ''foo'', Value = ''bar'' @ [quote], re = None\<rparr>"
    by (simp only: b2 n2 option.case)
  show ?thesis
    by (intro conjI f1 t1 v1 o1 w1 f2 t2 v2 o2 w2)
qed

section \<open>The compiled expression of a matcher\<close>

lemma ParseMatcher_Inr_NewMatcher:
  "ParseMatcher L s = Inr m \<Longrightarrow> \<exists>t n v. NewMatcher L t n v = Inr m"
  by (auto simp add: ParseMatcher_unfold split: option.splits prod.splits if_splits)

lemma NewMatcher_compile_error:
  "t = MatchRegexp \<or> t = MatchNotRegexp \<Longrightarrow> Compile L (''^(?:'' @ v @ '')$'') = Inl msg \<Longrightarrow>
     NewMatcher L t n v = Inl (RegexpError msg)"
  by (auto simp add: NewMatcher_def Let_def)

lemma ParseMatcher_statuscode:
  "Compile L ''^(?:5..)$'' = Inr r \<Longrightarrow>
     ParseMatcher L (''statuscode=~'' @ [quote] @ ''5..'' @ [quote])
       = Inr \<lparr>Type = MatchRegexp, Name = ''statuscode'', Value = ''5..'', re = Some r\<rparr>"
proof -
  assume c: "Compile L ''^(?:5..)$'' = Inr r"
  have f: "FindStringSubmatch (''statuscode=~'' @ [quote] @ ''5..'' @ [quote])
             = Some (''statuscode'', ''=~'', quote # ''5..'' @ [quote])"
    by code_simp
  have v: "ValidString (''5..'' @ [quote])"
    by code_simp
  have u: "specUnescape (''5..'' @ [quote]) = Some ''5..''"
    by code_simp
  show ?thesis
    using f v u c
    by (simp add: ParseMatcher_unfold TrimPrefix_quote(1) NewMatcher_def typeMap_def)
qed

text \<open>
  C5: a matcher returned by \<open>NewMatcher\<close>, and so one returned by \<open>ParseMatcher\<close>, carries
  a compiled expression exactly when its type is \<open>MatchRegexp\<close> or \<open>MatchNotRegexp\<close>, and
  that expression is the result of compiling \<^verbatim>\<open>^(?:\<close>, the value, \<^verbatim>\<open>)$\<close>.  When this
  pattern does not compile, \<open>NewMatcher\<close> returns the error of the compiler, a
  \<open>PatternError\<close> and not a \<open>SyntaxError\<close>, and no matcher.  \<^verbatim>\<open>statuscode=~"5.."\<close> parses
  to a \<open>MatchRegexp\<close> matcher whose \<open>Matches\<close> is the match of the compiled
  \<^verbatim>\<open>^(?:5..)$\<close>; as package \<open>regexp\<close> has that expression match "500" and "599" and not
  "50" or "5000", so does the matcher.
\<close>

theorem NewMatcher_compiled_expression:
  "(NewMatcher L t n v = Inr m \<longrightarrow>
      Type m = t \<and> Name m = n \<and> Value m = v
      \<and> (re m \<noteq> None) = (t = MatchRegexp \<or> t = MatchNotRegexp)
      \<and> (\<forall>r. re m = Some r \<longrightarrow> Compile L (''^(?:'' @ v @ '')$'') = Inr r))
   \<and> (ParseMatcher L s = Inr m \<longrightarrow>
      (re m \<noteq> None) = (Type m = MatchRegexp \<or> Type m = MatchNotRegexp)
      \<and> (\<forall>r. re m = Some r \<longrightarrow> Compile L (''^(?:'' @ Value m @ '')$'') = Inr r))
   \<and> ((t = MatchRegexp \<or> t = MatchNotRegexp) \<and> Compile L (''^(?:'' @ v @ '')$'') = Inl msg \<longrightarrow>
      NewMatcher L t n v = Inl (RegexpError msg)
      \<and> isPatternError (RegexpError msg) \<and> \<not> isSyntaxError (RegexpError msg))
   \<and> (Compile L ''^(?:5..)$'' = Inr r
        \<and> MatchString L r ''500'' \<and> MatchString L r ''599''
        \<and> \<not> MatchString L r ''50'' \<and> \<not> MatchString L r ''5000'' \<longrightarrow>
      (\<exists>m5. ParseMatcher L (''statuscode=~'' @ [quote] @ ''5..'' @ [quote]) = Inr m5
         \<and> Type m5 = MatchRegexp \<and> Name m5 = ''statuscode'' \<and> Value m5 = ''5..''
         \<and> re m5 = Some r
         \<and> (\<forall>x. Matches L m5 x = Inr (MatchString L r x))
         \<and> Matches L m5 ''500'' = Inr True \<and> Matches L m5 ''599'' = Inr True
         \<and> Matches L m5 ''50'' = Inr False \<and> Matches L m5 ''5000'' = Inr False))"
proof -
  have a: "NewMatcher L t n v = Inr m \<longrightarrow>
      Type m = t \<and> Name m = n \<and> Value m = v
      \<and> (re m \<noteq> None) = (t = MatchRegexp \<or> t = MatchNotRegexp)
      \<and> (\<forall>r. re m = Some r \<longrightarrow> Compile L (''^(?:'' @ v @ '')$'') = Inr r)"
    using NewMatcher_Inr [of L t n v m] by blast
  have b: "ParseMatcher L s = Inr m \<longrightarrow>
      (re m \<noteq> None) = (Type m = MatchRegexp \<or> Type m = MatchNotRegexp)
      \<and> (\<forall>r. re m = Some r \<longrightarrow> Compile L (''^(?:'' @ Value m @ '')$'') = Inr r)"
  proof
    assume "ParseMatcher L s = Inr m"
    then obtain t' n' v' where "NewMatcher L t' n' v' = Inr m"
      using ParseMatcher_Inr_NewMatcher by blast
    from NewMatcher_Inr [OF this]
    show "(re m \<noteq> None) = (Type m = MatchRegexp \<or> Type m = MatchNotRegexp)
      \<and> (\<forall>r. re m = Some r \<longrightarrow> Compile L (''^(?:'' @ Value m @ '')$'') = Inr r)"
      by simp
  qed
  have c: "(t = MatchRegexp \<or> t = MatchNotRegexp) \<and> Compile L (''^(?:'' @ v @ '')$'') = Inl msg \<longrightarrow>
      NewMatcher L t n v = Inl (RegexpError msg)
      \<and> isPatternError (RegexpError msg) \<and> \<not> isSyntaxError (RegexpError msg)"
    using NewMatcher_compile_error [of t L v msg n] by simp
  have d: "Compile L ''^(?:5..)$'' = Inr r
        \<and> MatchString L r ''500'' \<and> MatchString L r ''599''
        \<and> \<not> MatchString L r ''50'' \<and> \<not> MatchString L r ''5000'' \<longrightarrow>
      (\<exists>m5. ParseMatcher L (''statuscode=~'' @ [quote] @ ''5..'' @ [quote]) = Inr m5
         \<and> Type m5 = MatchRegexp \<and> Name m5 = ''statuscode'' \<and> Value m5 = ''5..''
         \<and> re m5 = Some r
         \<and> (\<forall>x. Matches L m5 x = Inr (MatchString L r x))
         \<and> Matches L m5 ''500'' = Inr True \<and> Matches L m5 ''599'' = Inr True
         \<and> Matches L m5 ''50'' = Inr False \<and> Matches L m5 ''5000'' = Inr False)"
  proof (intro impI, elim conjE)
    assume c5: "Compile L ''^(?:5..)$'' = Inr r"
      and ms: "MatchString L r ''500''" "MatchString L r ''599''"
        "\<not> MatchString L r ''50''" "\<not> MatchString L r ''5000''"
    show "\<exists>m5. ParseMatcher L (''statuscode=~'' @ [quote] @ ''5..'' @ [quote]) = Inr m5
         \<and> Type m5 = MatchRegexp \<and> Name m5 = ''statuscode'' \<and> Value m5 = ''5..''
         \<and> re m5 = Some r
         \<and> (\<forall>x. Matches L m5 x = Inr (MatchString L r x))
         \<and> Matches L m5 ''500'' = Inr True \<and> Matches L m5 ''599'' = Inr True
         \<and> Matches L m5 ''50'' = Inr False \<and> Matches L m5 ''5000'' = Inr False"
      using ParseMatcher_statuscode [OF c5] ms
      by (intro exI [of _ "\<lparr>Type = MatchRegexp, Name = ''statuscode'', Value = ''5..'',
            re = Some r\<rparr>"]) (simp add: Matches_def)
  qed
  from a b c d show ?thesis by blast
qed

theorem NewMatcher_compiled_expression_witness:
  "NewMatcher sampleRegexp MatchRegexp ''code'' ''5..''
      = Inr \<lparr>Type = MatchRegexp, Name = ''code'', Value = ''5..'',
             re = Some [Lit CHR ''5'', AnyChar, AnyChar]\<rparr>
   \<and> Compile sampleRegexp (''^(?:'' @ ''5..'' @ '')$'') = Inr [Lit CHR ''5'', AnyChar, AnyChar]
   \<and> Compile sampleRegexp (''^(?:'' @ ''('' @ '')$'') = Inl ''^(?:()$''
   \<and> NewMatcher sampleRegexp MatchNotRegexp ''code'' ''('' = Inl (RegexpError ''^(?:()$'')
   \<and> (\<exists>m5. ParseMatcher sampleRegexp (''statuscode=~'' @ [quote] @ ''5..'' @ [quote]) = Inr m5
         \<and> Type m5 = MatchRegexp \<and> re m5 = Some [Lit CHR ''5'', AnyChar, AnyChar]
         \<and> Compile sampleRegexp (''^(?:'' @ Value m5 @ '')$'')
              = Inr [Lit CHR ''5'', AnyChar, AnyChar]
         \<and> Matches sampleRegexp m5 ''500'' = Inr True
         \<and> Matches sampleRegexp m5 ''599'' = Inr True
         \<and> Matches sampleRegexp m5 ''50'' = Inr False
         \<and> Matches sampleRegexp m5 ''5000'' = Inr False)"
proof -
  let ?r = "[Lit CHR ''5'', AnyChar, AnyChar]"
  let ?m = "\<lparr>Type = MatchRegexp, Name = ''code'', Value = ''5..'', re = Some ?r\<rparr>"
  have n1: "NewMatcher sampleRegexp MatchRegexp ''code'' ''5..'' = Inr ?m"
    by code_simp
  have c1: "Compile sampleRegexp ''^(?:5..)$'' = Inr ?r"
    by code_simp
  have c2: "Compile sampleRegexp (''^(?:'' @ ''('' @ '')$'') = Inl ''^(?:()$''"
    by code_simp
  have ms: "MatchString sampleRegexp ?r ''500''" "MatchString sampleRegexp ?r ''599''"
    "\<not> MatchString sampleRegexp ?r ''50''" "\<not> MatchString sampleRegexp ?r ''5000''"
    by code_simp+
  have w1: "Compile sampleRegexp (''^(?:'' @ ''5..'' @ '')$'') = Inr ?r"
    using NewMatcher_compiled_expression [where L = sampleRegexp and t = MatchRegexp
        and n = "''code''" and v = "''5..''" and m = ?m] n1
    by simp
  have w2: "NewMatcher sampleRegexp MatchNotRegexp ''code'' ''('' = Inl (RegexpError ''^(?:()$'')"
    using NewMatcher_compiled_expression [where L = sampleRegexp and t = MatchNotRegexp
        and n = "''code''" and v = "''(''" and msg = "''^(?:()$''"] c2
    by blast
  obtain m5 where p: "ParseMatcher sampleRegexp (''statuscode=~'' @ [quote] @ ''5..'' @ [quote]) = Inr m5"
    and m5: "Type m5 = MatchRegexp" "Value m5 = ''5..''" "re m5 = Some ?r"
      "Matches sampleRegexp m5 ''500'' = Inr True" "Matches sampleRegexp m5 ''599'' = Inr True"
      "Matches sampleRegexp m5 ''50'' = Inr False" "Matches sampleRegexp m5 ''5000'' = Inr False"
    using NewMatcher_compiled_expression [where L = sampleRegexp and r = ?r] c1 ms
    by blast
  have w3: "Compile sampleRegexp (''^(?:'' @ Value m5 @ '')$'') = Inr ?r"
    using NewMatcher_compiled_expression [where L = sampleRegexp and m = m5
        and s = "''statuscode=~'' @ [quote] @ ''5..'' @ [quote]"] p m5(3)
    by blast
  from n1 w1 c2 w2 p m5 w3 show ?thesis by blast
qed

section \<open>Rendering and parsing again\<close>

lemma accept2_take: "accept2 t \<Longrightarrow> accept2 (take 1 t)"
  by (cases t) (auto simp add: accept2_def)

lemma accept3_take: "accept3 lo hi t \<Longrightarrow> accept3 lo hi (take 2 t)"
  by (cases t; cases "tl t") (auto simp add: accept3_def numeral_2_eq_2)

lemma accept4_take: "accept4 lo hi t \<Longrightarrow> accept4 lo hi (take 3 t)"
  by (cases t; cases "tl t"; cases "tl (tl t)") (auto simp add: accept4_def numeral_3_eq_3)

lemma runeLen_take: "runeLen (b # t) = Some w \<Longrightarrow> runeLen (b # take (w - 1) t) = Some w"
  unfolding runeLen_def Let_def list.case
  by (auto split: if_splits dest: accept2_take accept3_take accept4_take)

lemma rune_valid: "runeLen (b # t) = Some w \<Longrightarrow> ValidString (b # take (w - 1) t)"
proof -
  assume rl: "runeLen (b # t) = Some w"
  from runeLen_bounds [OF rl] have "w - 1 \<le> length t" by auto
  then show ?thesis
    using runeLen_take [OF rl] by simp
qed


lemma ValidString_snoc_ascii:
  "ValidString v \<Longrightarrow> \<forall>c \<in> set x. (of_char c :: nat) < 0x80 \<Longrightarrow> ValidString (v @ x)"
  using ValidString_append [of v x] ValidString_ascii [of x] by simp

lemma unescapeLoop_valid:
  "ValidString s \<Longrightarrow> ValidString val \<Longrightarrow> unescapeLoop n i escaped raw val s = Inr out \<Longrightarrow>
     ValidString out"
proof (induction "length s" arbitrary: s i escaped val rule: less_induct)
  case less
  show ?case
  proof (cases s)
    case Nil
    with less.prems show ?thesis by simp
  next
    case (Cons b t)
    with less.prems obtain w where rl: "runeLen (b # t) = Some w"
      and vr: "ValidString (drop (w - 1) t)"
      by (auto split: option.splits)
    from runeLen_cases [OF rl] show ?thesis
    proof
      assume a: "w = 1 \<and> (of_char b :: nat) < 0x80"
      with vr have vt: "ValidString t" by simp
      have IH: "\<And>j e v. ValidString v \<Longrightarrow> unescapeLoop n j e raw v t = Inr out \<Longrightarrow> ValidString out"
        using less.hyps [of t] vt Cons by simp
      have v1: "ValidString (val @ [newline])" "ValidString (val @ [b])"
        "ValidString (val @ [backslash, b])" "ValidString (val @ [backslash])"
        using less.prems(2) a by (simp_all add: ValidString_snoc_ascii special_ascii)
      from less.prems(3) show ?thesis
        unfolding Cons using a
        by (simp only: unescapeLoop_ascii split: if_splits)
           (auto intro: IH v1 less.prems(2))
    next
      assume a: "2 \<le> w \<and> 0x80 \<le> (of_char b :: nat) \<and> highBytes (w - 1) t"
      then have w: "2 \<le> w" and hb: "highBytes (w - 1) t" by simp_all
      let ?chunk = "(if escaped then [backslash] else []) @ b # take (w - 1) t"
      have vb: "ValidString [backslash]"
        by (simp add: runeLen_ascii special_ascii)
      have "ValidString ?chunk"
        using rune_valid [OF rl] ValidString_append [OF vb, of "b # take (w - 1) t"]
        by (simp del: ValidString.simps(2))
      then have vc: "ValidString (val @ ?chunk)"
        using ValidString_append [OF less.prems(2), of ?chunk] by simp
      have "length (drop (w - 1) t) < length s" using Cons by simp
      from less.hyps [OF this vr vc] less.prems(3) show ?thesis
        unfolding Cons by (simp only: unescapeLoop_multi [OF rl w hb])
    qed
  qed
qed

lemma escapeByte_high: "0x80 \<le> (of_char c :: nat) \<Longrightarrow> escapeByte c = [c]"
  using high_not_special [of c] by (simp add: escapeByte_def)

lemma escape_high:
  "\<forall>c \<in> set x. 0x80 \<le> (of_char c :: nat) \<Longrightarrow> openMetricsEscape x = x"
  by (induction x) (simp_all add: openMetricsEscape_def escapeByte_high)

lemma escape_append: "openMetricsEscape (x @ y) = openMetricsEscape x @ openMetricsEscape y"
  by (simp add: openMetricsEscape_def)

lemma escapeByte_ascii:
  "(of_char c :: nat) < 0x80 \<Longrightarrow> \<forall>d \<in> set (escapeByte c). (of_char d :: nat) < 0x80"
  by (simp add: escapeByte_def special_ascii)

lemma escape_valid: "ValidString v \<Longrightarrow> ValidString (openMetricsEscape v)"
proof (induction "length v" arbitrary: v rule: less_induct)
  case less
  show ?case
  proof (cases v)
    case Nil
    then show ?thesis by (simp add: openMetricsEscape_def)
  next
    case (Cons b t)
    with less.prems obtain w where rl: "runeLen (b # t) = Some w"
      and vr: "ValidString (drop (w - 1) t)"
      by (auto split: option.splits)
    from runeLen_cases [OF rl] show ?thesis
    proof
      assume a: "w = 1 \<and> (of_char b :: nat) < 0x80"
      with vr have vt: "ValidString t" by simp
      have "ValidString (openMetricsEscape t)"
        using less.hyps [of t] vt Cons by simp
      moreover have "ValidString (escapeByte b)"
        using a escapeByte_ascii [of b] ValidString_ascii by blast
      ultimately have "ValidString (escapeByte b @ openMetricsEscape t)"
        using ValidString_append by blast
      then show ?thesis
        unfolding Cons by (simp add: openMetricsEscape_def)
    next
      assume a: "2 \<le> w \<and> 0x80 \<le> (of_char b :: nat) \<and> highBytes (w - 1) t"
      let ?x = "b # take (w - 1) t" and ?rest = "drop (w - 1) t"
      have hx: "\<forall>c \<in> set ?x. 0x80 \<le> (of_char c :: nat)"
        using a by (simp add: highBytes_def)
      have v: "v = ?x @ ?rest" using Cons by simp
      have "ValidString (openMetricsEscape ?rest)"
        using less.hyps [of ?rest] vr Cons by simp
      then have "ValidString (?x @ openMetricsEscape ?rest)"
        using ValidString_append [OF rune_valid [OF rl]] by blast
      then have "ValidString (openMetricsEscape (?x @ ?rest))"
        by (simp only: escape_append escape_high [OF hx])
      then show ?thesis using v by simp
    qed
  qed
qed

lemma specUnescape_escape:
  "specUnescape (openMetricsEscape v @ [quote]) = Some v"
proof (induction v)
  case Nil
  show ?case by (simp add: openMetricsEscape_def)
next
  case (Cons c v)
  obtain d s where ds: "openMetricsEscape v @ [quote] = d # s"
    by (cases "openMetricsEscape v @ [quote]") auto
  show ?case
  proof (cases "c = backslash \<or> c = newline \<or> c = quote")
    case True
    then show ?thesis
      using Cons.IH by (auto simp add: openMetricsEscape_def escapeByte_def)
  next
    case False
    then have "openMetricsEscape (c # v) @ [quote] = c # d # s"
      using ds by (simp add: openMetricsEscape_def escapeByte_def)
    then show ?thesis
      using False Cons.IH ds by simp
  qed
qed

lemma nameStart_not_space: "isNameStart c \<Longrightarrow> \<not> isSpace c"
  by (auto simp add: isNameStart_def isAlpha_def inRange_def isSpace_def)

lemma nameStart_nameChar: "isNameStart c \<Longrightarrow> isNameChar c"
  by (simp add: isNameChar_def)

lemma op_chars:
  "\<not> isNameChar (CHR ''='')" "\<not> isNameChar (CHR ''!'')"
  "\<not> isSpace (CHR ''='')" "\<not> isSpace (CHR ''!'')" "\<not> isSpace quote"
  by (simp_all add: isNameChar_def isNameStart_def isAlpha_def inRange_def isSpace_def quote_def)

lemma matchOp_Some:
  "matchOp s = Some (op, rest) \<Longrightarrow> op \<in> {''=~'', ''='', ''!='', ''!~''}"
  by (auto simp add: matchOp_def split: if_splits)

lemma matchOp_rendered:
  "op \<in> {''=~'', ''='', ''!='', ''!~''} \<Longrightarrow> matchOp (op @ quote # x) = Some (op, quote # x)"
  by (auto simp add: matchOp_def quote_def)

lemma FindStringSubmatch_Some:
  "FindStringSubmatch t = Some (n, op, v) \<Longrightarrow>
     n \<noteq> [] \<and> isNameStart (hd n) \<and> (\<forall>c \<in> set n. isNameChar c)
     \<and> op \<in> {''=~'', ''='', ''!='', ''!~''}"
proof -
  assume a: "FindStringSubmatch t = Some (n, op, v)"
  then obtain c r where s1: "dropWhile isSpace t = c # r" and c: "isNameStart c"
    by (auto simp add: FindStringSubmatch_def Let_def split: list.splits if_splits)
  from a s1 c obtain s3 where
    m: "matchOp (dropWhile isSpace (dropWhile isNameChar (c # r))) = Some (op, s3)"
    and n: "n = takeWhile isNameChar (c # r)"
    by (auto simp add: FindStringSubmatch_def Let_def split: option.splits)
  from n c have "n = c # takeWhile isNameChar r"
    by (simp add: nameStart_nameChar)
  moreover have "\<forall>x \<in> set n. isNameChar x"
    unfolding n using set_takeWhileD by fastforce
  ultimately show ?thesis
    using c matchOp_Some [OF m] by simp
qed

lemma FindStringSubmatch_rendered:
  assumes "n \<noteq> []" "isNameStart (hd n)" "\<forall>c \<in> set n. isNameChar c"
    and op: "op \<in> {''=~'', ''='', ''!='', ''!~''}"
  shows "FindStringSubmatch (n @ op @ quote # e @ [quote]) = Some (n, op, quote # e @ [quote])"
proof -
  from assms(1) obtain c r where n: "n = c # r" by (cases n) auto
  with assms(2) have c: "isNameStart c" by simp
  from op obtain o1 orest where o: "op = o1 # orest" and o1: "\<not> isNameChar o1" "\<not> isSpace o1"
    using op_chars by auto
  let ?tail = "quote # e @ [quote]"
  have d1: "dropWhile isSpace (n @ op @ ?tail) = n @ op @ ?tail"
    using n c nameStart_not_space by simp
  have t1: "takeWhile isNameChar (n @ op @ ?tail) = n"
    using assms(3) o o1 by (simp add: takeWhile_append2)
  have d2: "dropWhile isNameChar (n @ op @ ?tail) = op @ ?tail"
    using assms(3) o o1 by (simp add: dropWhile_append2)
  have d3: "dropWhile isSpace (op @ ?tail) = op @ ?tail"
    using o o1 by simp
  have d4: "dropWhile isSpace ?tail = ?tail"
    using op_chars by simp
  have tr: "trimRight ?tail = ?tail"
    using op_chars by (simp add: trimRight_def)
  have hd: "n @ op @ ?tail = c # (r @ op @ ?tail)" using n by simp
  show ?thesis
    unfolding FindStringSubmatch_def Let_def d1
    unfolding t1 d2 d3 matchOp_rendered [OF op]
    by (simp add: hd c d4 tr del: dropWhile.simps)
qed

lemma typeMap_String:
  "op \<in> {''=~'', ''='', ''!='', ''!~''} \<Longrightarrow> MatchType_String (typeMap op) = op"
  by (auto simp add: typeMap_def MatchType_String_def)

lemma ParseMatcher_Inr:
  "ParseMatcher L t = Inr m \<Longrightarrow>
     \<exists>n op v. FindStringSubmatch t = Some (n, op, v)
        \<and> ValidString (TrimPrefix v [quote])
        \<and> unescapeLoop (int (length (TrimPrefix v [quote]))) 0 False (TrimPrefix v [quote]) []
              (TrimPrefix v [quote]) = Inr (Value m)
        \<and> NewMatcher L (typeMap op) n (Value m) = Inr m"
proof -
  assume a: "ParseMatcher L t = Inr m"
  then obtain n op v where f: "FindStringSubmatch t = Some (n, op, v)"
    by (auto simp add: ParseMatcher_def split: option.splits)
  let ?raw = "TrimPrefix v [quote]"
  from a f have v: "ValidString ?raw"
    by (auto simp add: ParseMatcher_def Let_def split: if_splits)
  from a f v obtain val where u: "unescapeLoop (int (length ?raw)) 0 False ?raw [] ?raw = Inr val"
    and nm: "NewMatcher L (typeMap op) n val = Inr m"
    by (auto simp add: ParseMatcher_def Let_def split: sum.splits)
  from NewMatcher_Inr [OF nm] have "Value m = val" by simp
  with f v u nm show ?thesis by blast
qed

text \<open>
  C8: when \<open>ParseMatcher\<close> accepts a text and returns a matcher, the rendering of that
  matcher (name, operator, and the escaped value between quotes) is accepted too and
  parses to the same matcher: the same type, name, value and compiled expression.
\<close>

theorem ParseMatcher_String_roundtrip:
  "ParseMatcher L t = Inr m \<Longrightarrow> ParseMatcher L (Matcher_String m) = Inr m"
proof -
  assume a: "ParseMatcher L t = Inr m"
  from ParseMatcher_Inr [OF a] obtain n op v where
    f: "FindStringSubmatch t = Some (n, op, v)"
    and v: "ValidString (TrimPrefix v [quote])"
    and u: "unescapeLoop (int (length (TrimPrefix v [quote]))) 0 False (TrimPrefix v [quote]) []
              (TrimPrefix v [quote]) = Inr (Value m)"
    and nm: "NewMatcher L (typeMap op) n (Value m) = Inr m"
    by blast
  from NewMatcher_Inr [OF nm] have tm: "Type m = typeMap op" and nn: "Name m = n"
    by simp_all
  note fs = FindStringSubmatch_Some [OF f]
  have vv: "ValidString (Value m)"
    using unescapeLoop_valid [OF v _ u] by simp
  let ?e = "openMetricsEscape (Value m)"
  have str: "Matcher_String m = n @ op @ quote # ?e @ [quote]"
    using fs by (simp add: Matcher_String_def tm nn typeMap_String)
  have f': "FindStringSubmatch (Matcher_String m) = Some (n, op, quote # ?e @ [quote])"
    unfolding str using fs by (intro FindStringSubmatch_rendered) simp_all
  have v': "ValidString (?e @ [quote])"
    using escape_valid [OF vv] by (rule ValidString_snoc_quote)
  have u': "specUnescape (?e @ [quote]) = Some (Value m)"
    by (rule specUnescape_escape)
  show ?thesis
    using f' v' u' nm by (simp add: ParseMatcher_unfold TrimPrefix_quote(1))
qed

theorem ParseMatcher_String_roundtrip_witness:
  "ParseMatcher sampleRegexp (''env = pr'' @ [backslash] @ ''d '')
     = Inr \<lparr>Type = MatchEqual, Name = ''env'', Value = ''pr'' @ [backslash] @ ''d'', re = None\<rparr>
   \<and> Matcher_String
        \<lparr>Type = MatchEqual, Name = ''env'', Value = ''pr'' @ [backslash] @ ''d'',
           re = (None :: atom list option)\<rparr>
       = ''env='' @ [quote] @ ''pr'' @ [backslash, backslash] @ ''d'' @ [quote]
   \<and> ParseMatcher sampleRegexp
        (Matcher_String
          \<lparr>Type = MatchEqual, Name = ''env'', Value = ''pr'' @ [backslash] @ ''d'',
             re = (None :: atom list option)\<rparr>)
     = Inr \<lparr>Type = MatchEqual, Name = ''env'', Value = ''pr'' @ [backslash] @ ''d'', re = None\<rparr>"
proof -
  let ?m = "\<lparr>Type = MatchEqual, Name = ''env'', Value = ''pr'' @ [backslash] @ ''d'',
              re = (None :: atom list option)\<rparr>"
  have p: "ParseMatcher sampleRegexp (''env = pr'' @ [backslash] @ ''d '') = Inr ?m"
    by code_simp
  have r: "Matcher_String ?m
       = ''env='' @ [quote] @ ''pr'' @ [backslash, backslash] @ ''d'' @ [quote]"
    by code_simp
  show ?thesis
    by (intro conjI p r ParseMatcher_String_roundtrip [OF p])
qed

section \<open>Parsing a list of matchers\<close>

lemma ParseMatcher_error_kind:
  "ParseMatcher L t = Inl e \<Longrightarrow> isSyntaxError e \<or> isPatternError e"
  by (auto simp add: ParseMatcher_unfold NewMatcher_def Let_def
        split: option.splits prod.splits if_splits sum.splits)

lemma ParseMatcher_empty: "ParseMatcher L [] = Inl (BadMatcherFormat [])"
  by (simp add: ParseMatcher_def FindStringSubmatch_def)

lemma parseTokens_all_ok:
  "\<forall>t \<in> set ts. \<exists>m. ParseMatcher L t = Inr m \<Longrightarrow>
     \<exists>ms. parseTokens L acc (ts @ rest) = parseTokens L (acc @ ms) rest
          \<and> length ms = length ts"
proof (induction ts arbitrary: acc)
  case Nil
  show ?case by simp
next
  case (Cons t ts)
  then obtain m where m: "ParseMatcher L t = Inr m" by auto
  from Cons.prems have "\<forall>t \<in> set ts. \<exists>m. ParseMatcher L t = Inr m" by simp
  from Cons.IH [OF this, of "acc @ [m]"] obtain ms where
    "parseTokens L (acc @ [m]) (ts @ rest) = parseTokens L ((acc @ [m]) @ ms) rest"
    "length ms = length ts"
    by blast
  then show ?case
    using m by (intro exI [of _ "m # ms"]) simp
qed

lemma parseTokens_first_failure:
  "\<forall>t \<in> set before. \<exists>m. ParseMatcher L t = Inr m \<Longrightarrow> ParseMatcher L t = Inl e \<Longrightarrow>
     parseTokens L acc (before @ t # after) = Inl e"
proof -
  assume ok: "\<forall>t \<in> set before. \<exists>m. ParseMatcher L t = Inr m" and e: "ParseMatcher L t = Inl e"
  from parseTokens_all_ok [OF ok, of acc "t # after"] obtain ms where
    "parseTokens L acc (before @ t # after) = parseTokens L (acc @ ms) (t # after)"
    by blast
  then show ?thesis using e by simp
qed

lemma parseTokens_some_failure:
  "\<exists>t \<in> set ts. \<exists>e. ParseMatcher L t = Inl e \<Longrightarrow>
     \<exists>t \<in> set ts. \<exists>e. ParseMatcher L t = Inl e \<and> parseTokens L acc ts = Inl e"
proof (induction ts arbitrary: acc)
  case Nil
  then show ?case by simp
next
  case (Cons t ts)
  show ?case
  proof (cases "ParseMatcher L t")
    case (Inl e)
    then show ?thesis by auto
  next
    case (Inr m)
    with Cons.prems have "\<exists>t \<in> set ts. \<exists>e. ParseMatcher L t = Inl e" by auto
    from Cons.IH [OF this, of "acc @ [m]"] show ?thesis
      using Inr by auto
  qed
qed


lemma parseTokens_append_Inl:
  "parseTokens L acc ts = Inl e \<Longrightarrow> parseTokens L acc (ts @ rest) = Inl e"
  by (induction ts arbitrary: acc) (auto split: sum.splits)

lemma tokenize_scan:
  "scanTokens False False [] [] (runes s) = (iq, esc, tok, toks) \<Longrightarrow>
     tokenize s = toks @ (if TrimSpace tok \<noteq> [] then [TrimSpace tok] else [])"
  by (simp add: tokenize_def Let_def)

lemma ParseMatcher_foo_bar:
  "ParseMatcher L ''foo=bar''
     = Inr \<lparr>Type = MatchEqual, Name = ''foo'', Value = ''bar'', re = None\<rparr>"
proof -
  have f: "FindStringSubmatch ''foo=bar'' = Some (''foo'', ''='', ''bar'')"
    by code_simp
  have t: "TrimPrefix ''bar'' [quote] = ''bar''"
    by code_simp
  have v: "ValidString ''bar''"
    by code_simp
  have u: "specUnescape ''bar'' = Some ''bar''"
    by code_simp
  show ?thesis
    using f v u by (simp add: ParseMatcher_unfold t NewMatcher_def typeMap_def)
qed

text \<open>
  C10, as stated, fails when a token before the empty one does not compile: the call
  returns that token's error, which is not a \<open>SyntaxError\<close>, and the empty token is
  not reached.
\<close>

theorem ParseMatchers_interior_empty_counterexample:
  "tokenize (''a=~'' @ [quote] @ ''('' @ [quote] @ '',,b=c'')
     = [''a=~'' @ [quote] @ ''('' @ [quote], [], ''b=c'']
   \<and> ParseMatchers sampleRegexp (''a=~'' @ [quote] @ ''('' @ [quote] @ '',,b=c'')
       = Inl (RegexpError ''^(?:()$'')
   \<and> \<not> isSyntaxError (RegexpError ''^(?:()$'')"
  by code_simp

text \<open>
  C10 (amended): only the last token is trimmed and dropped when empty; the tokens ended
  by a comma are parsed as they are.  So when one of them is empty the call fails, with
  the error of the first token that fails: the bad-format \<open>SyntaxError\<close> of the empty token
  when every token before it parses, and otherwise the error of an earlier token, a
  \<open>SyntaxError\<close> or a \<open>PatternError\<close>.  \<^verbatim>\<open>foo=bar,,dings=bums\<close> fails with the bad-format
  error of the empty token.
\<close>

theorem ParseMatchers_interior_empty:
  "(scanTokens False False [] [] (runes (TrimSuffix (TrimPrefix s ''{'') ''}''))
        = (iq, esc, tok, before @ [] # after) \<longrightarrow>
      tokenize (TrimSuffix (TrimPrefix s ''{'') ''}'')
        = (before @ [] # after) @ (if TrimSpace tok \<noteq> [] then [TrimSpace tok] else [])
      \<and> (\<exists>e. ParseMatchers L s = Inl e \<and> (isSyntaxError e \<or> isPatternError e)
             \<and> (\<exists>t \<in> set (before @ [ []]). ParseMatcher L t = Inl e))
      \<and> ((\<forall>t \<in> set before. \<exists>m. ParseMatcher L t = Inr m) \<longrightarrow>
             ParseMatchers L s = Inl (BadMatcherFormat [])))
   \<and> isSyntaxError (BadMatcherFormat [])
   \<and> ParseMatchers L ''foo=bar,,dings=bums'' = Inl (BadMatcherFormat [])"
proof -
  let ?s = "TrimSuffix (TrimPrefix s ''{'') ''}''"
  have gen: "scanTokens False False [] [] (runes ?s) = (iq, esc, tok, before @ [] # after) \<longrightarrow>
      tokenize ?s
        = (before @ [] # after) @ (if TrimSpace tok \<noteq> [] then [TrimSpace tok] else [])
      \<and> (\<exists>e. ParseMatchers L s = Inl e \<and> (isSyntaxError e \<or> isPatternError e)
             \<and> (\<exists>t \<in> set (before @ [ []]). ParseMatcher L t = Inl e))
      \<and> ((\<forall>t \<in> set before. \<exists>m. ParseMatcher L t = Inr m) \<longrightarrow>
             ParseMatchers L s = Inl (BadMatcherFormat []))"
  proof
    assume sc: "scanTokens False False [] [] (runes ?s) = (iq, esc, tok, before @ [] # after)"
    let ?last = "if TrimSpace tok \<noteq> [] then [TrimSpace tok] else []"
    have tk: "tokenize ?s = (before @ [] # after) @ ?last"
      by (rule tokenize_scan [OF sc])
    then have pm: "ParseMatchers L s = parseTokens L [] ((before @ [ []]) @ (after @ ?last))"
      by (simp add: ParseMatchers_def)
    have "\<exists>t \<in> set (before @ [ []]). \<exists>e. ParseMatcher L t = Inl e"
      using ParseMatcher_empty [of L] by auto
    from parseTokens_some_failure [OF this, of "[]"] obtain t e where
      t: "t \<in> set (before @ [ []])" and e: "ParseMatcher L t = Inl e"
      and p: "parseTokens L [] (before @ [ []]) = Inl e"
      by blast
    have r: "ParseMatchers L s = Inl e"
      unfolding pm by (rule parseTokens_append_Inl [OF p])
    have first: "(\<forall>t \<in> set before. \<exists>m. ParseMatcher L t = Inr m) \<longrightarrow>
             ParseMatchers L s = Inl (BadMatcherFormat [])"
    proof
      assume ok: "\<forall>t \<in> set before. \<exists>m. ParseMatcher L t = Inr m"
      have "ParseMatchers L s = parseTokens L [] (before @ [] # (after @ ?last))"
        using pm by simp
      also have "\<dots> = Inl (BadMatcherFormat [])"
        by (rule parseTokens_first_failure [OF ok ParseMatcher_empty])
      finally show "ParseMatchers L s = Inl (BadMatcherFormat [])" .
    qed
    from tk r t e ParseMatcher_error_kind [OF e] first
    show "tokenize ?s = (before @ [] # after) @ ?last
      \<and> (\<exists>e. ParseMatchers L s = Inl e \<and> (isSyntaxError e \<or> isPatternError e)
             \<and> (\<exists>t \<in> set (before @ [ []]). ParseMatcher L t = Inl e))
      \<and> ((\<forall>t \<in> set before. \<exists>m. ParseMatcher L t = Inr m) \<longrightarrow>
             ParseMatchers L s = Inl (BadMatcherFormat []))"
      by blast
  qed
  have tz: "tokenize (TrimSuffix (TrimPrefix ''foo=bar,,dings=bums'' ''{'') ''}'')
              = [''foo=bar''] @ [] # [''dings=bums'']"
    by code_simp
  have ex: "ParseMatchers L ''foo=bar,,dings=bums'' = Inl (BadMatcherFormat [])"
    unfolding ParseMatchers_def tz
    by (rule parseTokens_first_failure) (simp_all add: ParseMatcher_foo_bar ParseMatcher_empty)
  from gen ex show ?thesis by simp
qed

theorem ParseMatchers_interior_empty_witness:
  "scanTokens False False [] [] (runes (TrimSuffix (TrimPrefix ''{a=b,,c=d}'' ''{'') ''}''))
      = (False, False, ''c=d'', [''a=b''] @ [] # [])
   \<and> ParseMatcher sampleRegexp ''a=b''
       = Inr \<lparr>Type = MatchEqual, Name = ''a'', Value = ''b'', re = None\<rparr>
   \<and> ParseMatchers sampleRegexp ''{a=b,,c=d}'' = Inl (BadMatcherFormat [])"
proof -
  have sc: "scanTokens False False [] [] (runes (TrimSuffix (TrimPrefix ''{a=b,,c=d}'' ''{'') ''}''))
      = (False, False, ''c=d'', [''a=b''] @ [] # [])"
    by code_simp
  have p: "ParseMatcher sampleRegexp ''a=b''
          = Inr \<lparr>Type = MatchEqual, Name = ''a'', Value = ''b'', re = None\<rparr>"
    by code_simp
  then have ok: "\<forall>t \<in> set [''a=b'']. \<exists>m. ParseMatcher sampleRegexp t = Inr m"
    by simp
  have "ParseMatchers sampleRegexp ''{a=b,,c=d}'' = Inl (BadMatcherFormat [])"
    using ParseMatchers_interior_empty [where L = sampleRegexp and s = "''{a=b,,c=d}''"
        and iq = False and esc = False and tok = "''c=d''" and before = "[''a=b'']"
        and after = "[]"] sc ok
    by blast
  with sc p show ?thesis by blast
qed

section \<open>The tokenising loop and the specification\<close>












































text \<open>
  Where the loop and the specification part: after a backslash a comma leaves the escape
  flag set, so the quote that follows does not close the quoted span.  On
  \<^verbatim>\<open>a="\,",b=c\<close> the loop yields one token, whose value has an unescaped quote, where
  the split of the specification yields two matchers.  On \<^verbatim>\<open>a=b\,c=d\<close> the flag is
  reset before a quote is read, and both agree.
\<close>

lemma ParseMatchers_escaped_comma:
  "staleQuote False False
     (replaceInvalid (specStrip (''a='' @ [quote, backslash, comma, quote] @ '',b=c'')))
   \<and> tokenize (''a='' @ [quote, backslash, comma, quote] @ '',b=c'')
       = [''a='' @ [quote, backslash, comma, quote] @ '',b=c'']
   \<and> specTokens (''a='' @ [quote, backslash, comma, quote] @ '',b=c'')
       = [''a='' @ [quote, backslash, comma, quote], ''b=c'']
   \<and> ParseMatchers sampleRegexp (''a='' @ [quote, backslash, comma, quote] @ '',b=c'')
       = Inl (UnescapedQuote ([backslash, comma, quote] @ '',b=c''))
   \<and> specParseAll sampleRegexp (''a='' @ [quote, backslash, comma, quote] @ '',b=c'')
       = Inr [\<lparr>Type = MatchEqual, Name = ''a'', Value = [backslash, comma], re = None\<rparr>,
              \<lparr>Type = MatchEqual, Name = ''b'', Value = ''c'', re = None\<rparr>]
   \<and> staleQuote False False
        (replaceInvalid (specStrip (''a=b'' @ [backslash, comma] @ ''c=d''))) = False"
  by code_simp

text \<open>
  The last token reaches \<open>ParseMatcher\<close> trimmed by \<open>strings.TrimSpace\<close>, which also
  removes white space that the expression of \<open>ParseMatcher\<close> keeps in the value, such
  as a vertical tab.
\<close>

lemma ParseMatchers_trims_last_token:
  "ParseMatcher sampleRegexp (''a=b'' @ [CHR 0x0B])
     = Inr \<lparr>Type = MatchEqual, Name = ''a'', Value = ''b'' @ [CHR 0x0B], re = None\<rparr>
   \<and> ParseMatchers sampleRegexp (''a=b'' @ [CHR 0x0B])
     = Inr [\<lparr>Type = MatchEqual, Name = ''a'', Value = ''b'', re = None\<rparr>]"
  by code_simp

text \<open>
  The loop over the runes of the input writes U+FFFD for a byte that is not part of a
  well-formed encoding, so the token that reaches \<open>ParseMatcher\<close> is valid UTF-8 where
  the input is not.
\<close>

lemma ParseMatchers_replaces_ill_formed:
  "ParseMatcher sampleRegexp (''a=x'' @ [CHR 0xFF]) = Inl (NotValidUTF8 (''x'' @ [CHR 0xFF]))
   \<and> ParseMatchers sampleRegexp (''a=x'' @ [CHR 0xFF])
     = Inr [\<lparr>Type = MatchEqual, Name = ''a'', Value = ''x'' @ RuneError, re = None\<rparr>]"
  by code_simp




end
